theory Spec2Isabelle
  imports Main "HOL-Library.Word"
begin

unbundle bit_operations_syntax

section \<open>The VL53L0X driver of Core/Src/VL53L0X.c\<close>

text \<open>
  The driver is C for a Cortex-M3 (STM32F103). Its integers are modelled with their
  widths: \<open>uint8_t\<close>, \<open>uint16_t\<close> and \<open>uint32_t\<close> are words, and an expression
  that C evaluates in \<open>int\<close> after integer promotion is evaluated in a 32-bit word
  and converted where the C converts it. Two operations that the C standard leaves
  undefined are given the value the Cortex-M3 computes: a left shift by 32 or more
  is 0 (\<open>push_bit\<close> on a 32-bit word), and an unsigned division by zero is 0 (the
  driver never sets the divide-by-zero trap of the control register).
\<close>

type_synonym u8 = "8 word"
type_synonym u16 = "16 word"
type_synonym u32 = "32 word"

subsection \<open>Data model\<close>

text \<open>
  Modelled from the spec: the header VL53L0X.h, with the register addresses, the
  enumeration of period types and the three structs, is missing from the sources.
  The spec (section 6) treats the register map as a fixed contract with the sensor
  and lists no address, so each register the driver names is kept symbolic, one
  constructor per name: registers of different names are different registers, as
  they are on the sensor. \<open>RegLit\<close> is an address the driver writes as a number
  (\<open>0xFF\<close>, \<open>0x80\<close>, ...), \<open>RegPlus\<close> the address arithmetic of
  \<open>RESULT_RANGE_STATUS + 10\<close>.
\<close>

datatype regAddr =
    SYSRANGE_START
  | SYSTEM_SEQUENCE_CONFIG
  | SYSTEM_INTERRUPT_CLEAR
  | RESULT_INTERRUPT_STATUS
  | RESULT_RANGE_STATUS
  | MSRC_CONFIG_TIMEOUT_MACROP
  | PRE_RANGE_CONFIG_VALID_PHASE_LOW
  | PRE_RANGE_CONFIG_VALID_PHASE_HIGH
  | PRE_RANGE_CONFIG_VCSEL_PERIOD
  | PRE_RANGE_CONFIG_TIMEOUT_MACROP_HI
  | FINAL_RANGE_CONFIG_VALID_PHASE_LOW
  | FINAL_RANGE_CONFIG_VALID_PHASE_HIGH
  | FINAL_RANGE_CONFIG_VCSEL_PERIOD
  | FINAL_RANGE_CONFIG_TIMEOUT_MACROP_HI
  | GLOBAL_CONFIG_VCSEL_WIDTH
  | ALGO_PHASECAL_LIM
  | ALGO_PHASECAL_CONFIG_TIMEOUT
  | RegLit u8
  | RegPlus regAddr u8

text \<open>
  Modelled from the spec: \<open>enum VL53L0X_vcselPeriodType\<close> of the missing header
  (section 4.4: the step is PreRange or FinalRange). The two enumerators are the ones
  the driver tests for; \<open>VcselPeriodOther\<close> stands for any other value of the C
  enum, which the driver's "invalid type" branches handle.
\<close>

datatype vcselPeriodType = VcselPeriodPreRange | VcselPeriodFinalRange | VcselPeriodOther

text \<open>
  Modelled from the spec: \<open>struct VL53L0X\<close> of the missing header, the device handle
  of section 3 (bus address, stop variable, cached timing budget, sticky timeout flag,
  supply-voltage mode), under the field names the driver uses.
\<close>

record VL53L0X =
  address :: u8
  io_2v8 :: bool
  stop_variable :: u8
  measurement_timing_budget_us :: u32
  did_timeout :: bool

text \<open>
  Modelled from the spec: \<open>struct VL53L0X_SequenceStepEnables\<close> and
  \<open>struct VL53L0X_SequenceStepTimeouts\<close> of the missing header (section 3: five
  booleans; two pulse periods and, per step, a timeout in MCLKs and in microseconds),
  under the field names the driver uses.
  The timeouts in MCLKs are 16-bit (the driver's note at \<open>VL53L0X_decodeTimeout\<close>:
  "the return value is always stored in a uint16_t"), the timeouts in microseconds
  are the \<open>uint32_t\<close> that \<open>VL53L0X_timeoutMclksToMicroseconds\<close> returns. The two
  periods are produced by a function returning \<open>uint8_t\<close> and only passed on to
  \<open>uint8_t\<close> parameters, so eight bits hold them whatever the declared width.
\<close>

record SequenceStepEnables =
  tcc :: bool
  dss :: bool
  msrc :: bool
  pre_range :: bool
  final_range :: bool

record SequenceStepTimeouts =
  pre_range_vcsel_period_pclks :: u8
  final_range_vcsel_period_pclks :: u8
  msrc_dss_tcc_mclks :: u16
  pre_range_mclks :: u16
  final_range_mclks :: u16
  msrc_dss_tcc_us :: u32
  pre_range_us :: u32
  final_range_us :: u32

subsection \<open>The bus\<close>

text \<open>
  The sensor sits behind the I2C peripheral. The driver only ever sends it "write
  these bytes starting at register R" and "read N bytes starting at register R".
  The bus state is the traffic so far, oldest first, and the sensor is whatever
  answers a read: a function of the traffic so far, the register and the index of
  the byte within the read. Nothing is assumed about that function here.
\<close>

datatype bus_event = WriteBytes regAddr "u8 list" | ReadBytes regAddr nat

record bus =
  device :: "bus_event list \<Rightarrow> regAddr \<Rightarrow> nat \<Rightarrow> u8"
  traffic :: "bus_event list"

definition writeReg :: "bus \<Rightarrow> regAddr \<Rightarrow> u8 \<Rightarrow> bus" where
  "writeReg b reg val = b\<lparr>traffic := traffic b @ [WriteBytes reg [val]]\<rparr>"

definition writeReg16Bit :: "bus \<Rightarrow> regAddr \<Rightarrow> u16 \<Rightarrow> bus" where
  "writeReg16Bit b reg val =
     b\<lparr>traffic := traffic b @ [WriteBytes reg [ucast (drop_bit 8 val), ucast (val AND 0xFF)]]\<rparr>"

definition readReg :: "bus \<Rightarrow> regAddr \<Rightarrow> u8 \<times> bus" where
  "readReg b reg =
     (device b (traffic b) reg 0, b\<lparr>traffic := traffic b @ [ReadBytes reg 1]\<rparr>)"

definition readReg16Bit :: "bus \<Rightarrow> regAddr \<Rightarrow> u16 \<times> bus" where
  "readReg16Bit b reg =
     (push_bit 8 (ucast (device b (traffic b) reg 0)) OR ucast (device b (traffic b) reg 1),
      b\<lparr>traffic := traffic b @ [ReadBytes reg 2]\<rparr>)"

subsection \<open>Macros\<close>

definition decodeVcselPeriod :: "u8 \<Rightarrow> u32" where
  "decodeVcselPeriod reg_val = push_bit 1 (ucast reg_val + 1)"

definition encodeVcselPeriod :: "u8 \<Rightarrow> u32" where
  "encodeVcselPeriod period_pclks = drop_bit 1 (ucast period_pclks) - 1"

definition calcMacroPeriod :: "u8 \<Rightarrow> u32" where
  "calcMacroPeriod vcsel_period_pclks =
     ((2304 * ucast vcsel_period_pclks * 1655) + 500) div 1000"

subsection \<open>Timeout codec and conversions\<close>

definition decodeTimeout :: "u16 \<Rightarrow> u16" where
  "decodeTimeout reg_val =
     ucast (push_bit (unat (drop_bit 8 (reg_val AND 0xFF00)))
                     (ucast (reg_val AND 0x00FF) :: u32)) + 1"

text \<open>The \<open>while\<close> loop of \<open>VL53L0X_encodeTimeout\<close>, on its two variables.\<close>

function encodeTimeout_loop :: "u32 \<Rightarrow> u16 \<Rightarrow> u32 \<times> u16" where
  "encodeTimeout_loop ls_byte ms_byte =
     (if (ls_byte AND 0xFFFFFF00) > 0
      then encodeTimeout_loop (drop_bit 1 ls_byte) (ms_byte + 1)
      else (ls_byte, ms_byte))"
  by pat_completeness auto
termination
proof (relation "measure (\<lambda>(ls_byte, ms_byte). unat ls_byte)")
  show "wf (measure (\<lambda>(ls_byte, ms_byte). unat ls_byte))" by simp
next
  fix ls_byte :: u32 and ms_byte :: u16
  assume "0 < ls_byte AND 0xFFFFFF00"
  then have "ls_byte \<noteq> 0" by auto
  then have "0 < unat ls_byte" by (simp add: unat_gt_0)
  then have "unat ls_byte div 2 < unat ls_byte" by simp
  then show "((drop_bit 1 ls_byte, ms_byte + 1), (ls_byte, ms_byte))
               \<in> measure (\<lambda>(ls_byte, ms_byte). unat ls_byte)"
    by (simp add: drop_bit_eq_div unat_div)
qed

definition encodeTimeout :: "u16 \<Rightarrow> u16" where
  "encodeTimeout timeout_mclks =
     (if timeout_mclks > 0
      then (case encodeTimeout_loop (ucast timeout_mclks - 1) 0 of
              (ls_byte, ms_byte) \<Rightarrow>
                ucast (push_bit 8 (ucast ms_byte :: u32) OR (ls_byte AND 0xFF)))
      else 0)"

definition timeoutMclksToMicroseconds :: "u16 \<Rightarrow> u8 \<Rightarrow> u32" where
  "timeoutMclksToMicroseconds timeout_period_mclks vcsel_period_pclks =
     (let macro_period_ns = calcMacroPeriod vcsel_period_pclks
      in ((ucast timeout_period_mclks * macro_period_ns) + (macro_period_ns div 2)) div 1000)"

definition timeoutMicrosecondsToMclks :: "u32 \<Rightarrow> u8 \<Rightarrow> u32" where
  "timeoutMicrosecondsToMclks timeout_period_us vcsel_period_pclks =
     (let macro_period_ns = calcMacroPeriod vcsel_period_pclks
      in ((timeout_period_us * 1000) + (macro_period_ns div 2)) div macro_period_ns)"

subsection \<open>Sequence steps\<close>

definition getVcselPulsePeriod :: "bus \<Rightarrow> vcselPeriodType \<Rightarrow> u8 \<times> bus" where
  "getVcselPulsePeriod b type =
     (case type of
        VcselPeriodPreRange \<Rightarrow>
          (case readReg b PRE_RANGE_CONFIG_VCSEL_PERIOD of
             (reg_val, b') \<Rightarrow> (ucast (decodeVcselPeriod reg_val), b'))
      | VcselPeriodFinalRange \<Rightarrow>
          (case readReg b FINAL_RANGE_CONFIG_VCSEL_PERIOD of
             (reg_val, b') \<Rightarrow> (ucast (decodeVcselPeriod reg_val), b'))
      | VcselPeriodOther \<Rightarrow> (255, b))"

definition getSequenceStepEnables :: "bus \<Rightarrow> SequenceStepEnables \<times> bus" where
  "getSequenceStepEnables b =
     (case readReg b SYSTEM_SEQUENCE_CONFIG of
        (sequence_config, b') \<Rightarrow>
          (\<lparr> tcc = (drop_bit 4 sequence_config AND 0x1) \<noteq> 0,
             dss = (drop_bit 3 sequence_config AND 0x1) \<noteq> 0,
             msrc = (drop_bit 2 sequence_config AND 0x1) \<noteq> 0,
             pre_range = (drop_bit 6 sequence_config AND 0x1) \<noteq> 0,
             final_range = (drop_bit 7 sequence_config AND 0x1) \<noteq> 0 \<rparr>, b'))"

definition getSequenceStepTimeouts ::
  "bus \<Rightarrow> SequenceStepEnables \<Rightarrow> SequenceStepTimeouts \<times> bus" where
  "getSequenceStepTimeouts b enables =
     (case getVcselPulsePeriod b VcselPeriodPreRange of (pre_pclks, b1) \<Rightarrow>
      case readReg b1 MSRC_CONFIG_TIMEOUT_MACROP of (msrc_reg, b2) \<Rightarrow>
      case readReg16Bit b2 PRE_RANGE_CONFIG_TIMEOUT_MACROP_HI of (pre_reg, b3) \<Rightarrow>
      case getVcselPulsePeriod b3 VcselPeriodFinalRange of (final_pclks, b4) \<Rightarrow>
      case readReg16Bit b4 FINAL_RANGE_CONFIG_TIMEOUT_MACROP_HI of (final_reg, b5) \<Rightarrow>
        (let msrc_mclks = ucast msrc_reg + 1;
             pre_mclks = decodeTimeout pre_reg;
             final_mclks = (if pre_range enables
                            then decodeTimeout final_reg - pre_mclks
                            else decodeTimeout final_reg)
         in (\<lparr> pre_range_vcsel_period_pclks = pre_pclks,
                final_range_vcsel_period_pclks = final_pclks,
                msrc_dss_tcc_mclks = msrc_mclks,
                pre_range_mclks = pre_mclks,
                final_range_mclks = final_mclks,
                msrc_dss_tcc_us = timeoutMclksToMicroseconds msrc_mclks pre_pclks,
                pre_range_us = timeoutMclksToMicroseconds pre_mclks pre_pclks,
                final_range_us = timeoutMclksToMicroseconds final_mclks final_pclks \<rparr>, b5)))"

subsection \<open>Timing budget\<close>

definition StartOverhead :: u32 where "StartOverhead = 1320"
definition EndOverhead :: u32 where "EndOverhead = 960"
definition MsrcOverhead :: u32 where "MsrcOverhead = 660"
definition TccOverhead :: u32 where "TccOverhead = 590"
definition DssOverhead :: u32 where "DssOverhead = 690"
definition PreRangeOverhead :: u32 where "PreRangeOverhead = 660"
definition FinalRangeOverhead :: u32 where "FinalRangeOverhead = 550"
definition MinTimingBudget :: u32 where "MinTimingBudget = 20000"

text \<open>
  The variable \<open>used_budget_us\<close> of \<open>VL53L0X_setMeasurementTimingBudget\<close> when
  control reaches \<open>if (enables.final_range)\<close>.
\<close>

definition used_budget_us :: "SequenceStepEnables \<Rightarrow> SequenceStepTimeouts \<Rightarrow> u32" where
  "used_budget_us enables timeouts =
     (let used0 = StartOverhead + EndOverhead;
          used1 = (if tcc enables
                   then used0 + (msrc_dss_tcc_us timeouts + TccOverhead)
                   else used0);
          used2 = (if dss enables
                   then used1 + 2 * (msrc_dss_tcc_us timeouts + DssOverhead)
                   else if msrc enables
                   then used1 + (msrc_dss_tcc_us timeouts + MsrcOverhead)
                   else used1)
      in (if pre_range enables
          then used2 + (pre_range_us timeouts + PreRangeOverhead)
          else used2))"

definition setMeasurementTimingBudget :: "VL53L0X \<Rightarrow> bus \<Rightarrow> u32 \<Rightarrow> bool \<times> VL53L0X \<times> bus" where
  "setMeasurementTimingBudget dev b budget_us =
     (if budget_us < MinTimingBudget then (False, dev, b)
      else
        case getSequenceStepEnables b of (enables, b1) \<Rightarrow>
        case getSequenceStepTimeouts b1 enables of (timeouts, b2) \<Rightarrow>
          if final_range enables
          then
            (let used = used_budget_us enables timeouts + FinalRangeOverhead
             in if used > budget_us then (False, dev, b2)
                else
                  (let final_range_timeout_us = budget_us - used;
                       mclks = (ucast (timeoutMicrosecondsToMclks final_range_timeout_us
                                  (final_range_vcsel_period_pclks timeouts)) :: u16);
                       final_range_timeout_mclks =
                         (if pre_range enables then mclks + pre_range_mclks timeouts else mclks);
                       b3 = writeReg16Bit b2 FINAL_RANGE_CONFIG_TIMEOUT_MACROP_HI
                              (encodeTimeout final_range_timeout_mclks)
                   in (True, dev\<lparr>measurement_timing_budget_us := budget_us\<rparr>, b3)))
          else (True, dev, b2))"

subsection \<open>Timeouts and polling\<close>

text \<open>
  \<open>VL53L0X_startTimeout\<close> has an empty body and \<open>VL53L0X_checkTimeoutExpired\<close> is
  \<open>return 0;\<close>: the expressions that would read the clock are commented out.
\<close>

definition startTimeout :: "VL53L0X \<Rightarrow> VL53L0X" where
  "startTimeout dev = dev"

definition checkTimeoutExpired :: "VL53L0X \<Rightarrow> bool" where
  "checkTimeoutExpired dev = False"

text \<open>
  The two polling loops. Each returns whether it left through the timeout branch,
  and the bus; a loop that never leaves is \<open>None\<close>.
\<close>

partial_function (option) calibration_wait :: "VL53L0X \<Rightarrow> bus \<Rightarrow> (bool \<times> bus) option" where
  "calibration_wait dev b =
     (let r = readReg b RESULT_INTERRUPT_STATUS
      in if (fst r AND 0x07) = 0
         then (if checkTimeoutExpired dev then Some (True, snd r)
               else calibration_wait dev (snd r))
         else Some (False, snd r))"

partial_function (option) start_bit_wait :: "VL53L0X \<Rightarrow> bus \<Rightarrow> (bool \<times> bus) option" where
  "start_bit_wait dev b =
     (let r = readReg b SYSRANGE_START
      in if (fst r AND 0x01) \<noteq> 0
         then (if checkTimeoutExpired dev then Some (True, snd r)
               else start_bit_wait dev (snd r))
         else Some (False, snd r))"

definition performSingleRefCalibration :: "VL53L0X \<Rightarrow> bus \<Rightarrow> u8 \<Rightarrow> (bool \<times> bus) option" where
  "performSingleRefCalibration dev b vhv_init_byte =
     (let b1 = writeReg b SYSRANGE_START (0x01 OR vhv_init_byte)
      in case calibration_wait (startTimeout dev) b1 of
           None \<Rightarrow> None
         | Some (expired, b2) \<Rightarrow>
             if expired then Some (False, b2)
             else Some (True, writeReg (writeReg b2 SYSTEM_INTERRUPT_CLEAR 0x01) SYSRANGE_START 0x00))"

definition readRangeContinuousMillimeters :: "bus \<Rightarrow> u16 \<times> bus" where
  "readRangeContinuousMillimeters b =
     (case readReg16Bit b (RegPlus RESULT_RANGE_STATUS 10) of
        (range_mm, b1) \<Rightarrow> (range_mm, writeReg b1 SYSTEM_INTERRUPT_CLEAR 0x01))"

definition readRangeSingleMillimeters :: "VL53L0X \<Rightarrow> bus \<Rightarrow> (u16 \<times> VL53L0X \<times> bus) option" where
  "readRangeSingleMillimeters dev b =
     (let b1 = writeReg b (RegLit 0x80) 0x01;
          b2 = writeReg b1 (RegLit 0xFF) 0x01;
          b3 = writeReg b2 (RegLit 0x00) 0x00;
          b4 = writeReg b3 (RegLit 0x91) (stop_variable dev);
          b5 = writeReg b4 (RegLit 0x00) 0x01;
          b6 = writeReg b5 (RegLit 0xFF) 0x00;
          b7 = writeReg b6 (RegLit 0x80) 0x00;
          b8 = writeReg b7 SYSRANGE_START 0x01
      in case start_bit_wait (startTimeout dev) b8 of
           None \<Rightarrow> None
         | Some (expired, b9) \<Rightarrow>
             if expired then Some (65535, dev\<lparr>did_timeout := True\<rparr>, b9)
             else (case readRangeContinuousMillimeters b9 of
                     (range_mm, b10) \<Rightarrow> Some (range_mm, dev, b10)))"

subsection \<open>Pulse period\<close>

text \<open>
  \<open>VL53L0X_setVcselPulsePeriod\<close> from \<open>if (type == VcselPeriodPreRange)\<close> to the end of
  its \<open>else\<close> chain: the register settings for the period and the rewritten
  timeouts. \<open>None\<close> is the \<open>return false\<close> of the three "invalid" branches.
\<close>

definition setVcselPulsePeriod_apply ::
  "bus \<Rightarrow> SequenceStepEnables \<Rightarrow> SequenceStepTimeouts \<Rightarrow> vcselPeriodType \<Rightarrow> u8 \<Rightarrow> bus option" where
  "setVcselPulsePeriod_apply b enables timeouts type period_pclks =
     (let vcsel_period_reg = (ucast (encodeVcselPeriod period_pclks) :: u8)
      in case type of
        VcselPeriodPreRange \<Rightarrow>
          (case (if period_pclks = 12 then Some (writeReg b PRE_RANGE_CONFIG_VALID_PHASE_HIGH 0x18)
                 else if period_pclks = 14 then Some (writeReg b PRE_RANGE_CONFIG_VALID_PHASE_HIGH 0x30)
                 else if period_pclks = 16 then Some (writeReg b PRE_RANGE_CONFIG_VALID_PHASE_HIGH 0x40)
                 else if period_pclks = 18 then Some (writeReg b PRE_RANGE_CONFIG_VALID_PHASE_HIGH 0x50)
                 else None) of
             None \<Rightarrow> None
           | Some b1 \<Rightarrow>
               (let b2 = writeReg b1 PRE_RANGE_CONFIG_VALID_PHASE_LOW 0x08;
                    b3 = writeReg b2 PRE_RANGE_CONFIG_VCSEL_PERIOD vcsel_period_reg;
                    new_pre_range_timeout_mclks =
                      (ucast (timeoutMicrosecondsToMclks (pre_range_us timeouts) period_pclks) :: u16);
                    b4 = writeReg16Bit b3 PRE_RANGE_CONFIG_TIMEOUT_MACROP_HI
                           (encodeTimeout new_pre_range_timeout_mclks);
                    new_msrc_timeout_mclks =
                      (ucast (timeoutMicrosecondsToMclks (msrc_dss_tcc_us timeouts) period_pclks) :: u16);
                    b5 = writeReg b4 MSRC_CONFIG_TIMEOUT_MACROP
                           (if new_msrc_timeout_mclks > 256 then 255
                            else ucast ((ucast new_msrc_timeout_mclks :: u32) - 1))
                in Some b5))
      | VcselPeriodFinalRange \<Rightarrow>
          (case (if period_pclks = 8 then Some (0x10, 0x02, 0x0C, 0x30)
                 else if period_pclks = 10 then Some (0x28, 0x03, 0x09, 0x20)
                 else if period_pclks = 12 then Some (0x38, 0x03, 0x08, 0x20)
                 else if period_pclks = 14 then Some (0x48, 0x03, 0x07, 0x20)
                 else None) of
             None \<Rightarrow> None
           | Some (phase_high, vcsel_width, phasecal_timeout, phasecal_lim) \<Rightarrow>
               (let b1 = writeReg b FINAL_RANGE_CONFIG_VALID_PHASE_HIGH phase_high;
                    b2 = writeReg b1 FINAL_RANGE_CONFIG_VALID_PHASE_LOW 0x08;
                    b3 = writeReg b2 GLOBAL_CONFIG_VCSEL_WIDTH vcsel_width;
                    b4 = writeReg b3 ALGO_PHASECAL_CONFIG_TIMEOUT phasecal_timeout;
                    b5 = writeReg b4 (RegLit 0xFF) 0x01;
                    b6 = writeReg b5 ALGO_PHASECAL_LIM phasecal_lim;
                    b7 = writeReg b6 (RegLit 0xFF) 0x00;
                    b8 = writeReg b7 FINAL_RANGE_CONFIG_VCSEL_PERIOD vcsel_period_reg;
                    mclks = (ucast (timeoutMicrosecondsToMclks (final_range_us timeouts) period_pclks) :: u16);
                    new_final_range_timeout_mclks =
                      (if pre_range enables then mclks + pre_range_mclks timeouts else mclks);
                    b9 = writeReg16Bit b8 FINAL_RANGE_CONFIG_TIMEOUT_MACROP_HI
                           (encodeTimeout new_final_range_timeout_mclks)
                in Some b9))
      | VcselPeriodOther \<Rightarrow> None)"

definition setVcselPulsePeriod ::
  "VL53L0X \<Rightarrow> bus \<Rightarrow> vcselPeriodType \<Rightarrow> u8 \<Rightarrow> (bool \<times> VL53L0X \<times> bus) option" where
  "setVcselPulsePeriod dev b type period_pclks =
     (case getSequenceStepEnables b of (enables, b1) \<Rightarrow>
      case getSequenceStepTimeouts b1 enables of (timeouts, b2) \<Rightarrow>
      case setVcselPulsePeriod_apply b2 enables timeouts type period_pclks of
        None \<Rightarrow> Some (False, dev, b2)
      | Some b3 \<Rightarrow>
          (case setMeasurementTimingBudget dev b3 (measurement_timing_budget_us dev) of
             (reapplied, dev', b4) \<Rightarrow>
               (case readReg b4 SYSTEM_SEQUENCE_CONFIG of
                  (sequence_config, b5) \<Rightarrow>
                    (case performSingleRefCalibration dev'
                            (writeReg b5 SYSTEM_SEQUENCE_CONFIG 0x02) 0x0 of
                       None \<Rightarrow> None
                     | Some (calibrated, b6) \<Rightarrow>
                         Some (True, dev', writeReg b6 SYSTEM_SEQUENCE_CONFIG sequence_config)))))"

subsection \<open>The vocabulary of the specification\<close>

text \<open>
  The budget an operation uses, in the spec's words (section 4.3): the fixed start
  and end overheads 1320 + 960, plus for each enabled step its measured cost and its
  overhead (TCC 590; DSS 690, the step counted twice because it makes two passes, or
  else, DSS being disabled, MSRC 660; pre-range 660), plus the final-range overhead
  550. A natural number, with no word arithmetic.
\<close>

definition spec_budget_cost :: "SequenceStepEnables \<Rightarrow> SequenceStepTimeouts \<Rightarrow> nat" where
  "spec_budget_cost enables timeouts =
     1320 + 960
     + (if tcc enables then unat (msrc_dss_tcc_us timeouts) + 590 else 0)
     + (if dss enables then 2 * (unat (msrc_dss_tcc_us timeouts) + 690)
        else if msrc enables then unat (msrc_dss_tcc_us timeouts) + 660 else 0)
     + (if pre_range enables then unat (pre_range_us timeouts) + 660 else 0)
     + 550"

text \<open>The pulse periods the spec allows for each step (section 4.4).\<close>

fun spec_allowed_periods :: "vcselPeriodType \<Rightarrow> u8 set" where
  "spec_allowed_periods VcselPeriodPreRange = {12, 14, 16, 18}"
| "spec_allowed_periods VcselPeriodFinalRange = {8, 10, 12, 14}"
| "spec_allowed_periods VcselPeriodOther = {}"

subsection \<open>Sensors\<close>

text \<open>
  The sensor is hardware, not code of the repository; these are the sensors the
  concrete instances below are stated for.
\<close>

text \<open>A sensor that answers every read with the same byte.\<close>

definition constant_sensor :: "u8 \<Rightarrow> bus_event list \<Rightarrow> regAddr \<Rightarrow> nat \<Rightarrow> u8" where
  "constant_sensor val = (\<lambda>log reg i. val)"

text \<open>
  A sensor that is a register file (the simulated device of the spec's section 8): a
  read returns the bytes last written at that register, or the initial contents. A
  register is addressed by its name and the index of the byte within the transfer.
\<close>

fun store_event :: "(regAddr \<Rightarrow> nat \<Rightarrow> u8) \<Rightarrow> bus_event \<Rightarrow> regAddr \<Rightarrow> nat \<Rightarrow> u8" where
  "store_event regs (WriteBytes reg bytes) =
     (\<lambda>r i. if r = reg \<and> i < length bytes then bytes ! i else regs r i)"
| "store_event regs (ReadBytes reg n) = regs"

definition register_file ::
  "(regAddr \<Rightarrow> nat \<Rightarrow> u8) \<Rightarrow> bus_event list \<Rightarrow> regAddr \<Rightarrow> nat \<Rightarrow> u8" where
  "register_file init log = foldl store_event init log"

text \<open>
  Register contents for the concrete instances: the sequence configuration \<open>0xE8\<close>
  that \<open>VL53L0X_init\<close> writes (DSS, pre-range and final range enabled), the periods
  the driver documents as defaults (pre-range 14, final range 10 PCLKs), and some
  timeouts. The handle is one that \<open>VL53L0X_init\<close> has not filled in yet.
\<close>

fun regs_after_init :: "regAddr \<Rightarrow> nat \<Rightarrow> u8" where
  "regs_after_init SYSTEM_SEQUENCE_CONFIG i = 0xE8"
| "regs_after_init PRE_RANGE_CONFIG_VCSEL_PERIOD i = 0x06"
| "regs_after_init FINAL_RANGE_CONFIG_VCSEL_PERIOD i = 0x04"
| "regs_after_init MSRC_CONFIG_TIMEOUT_MACROP i = 0x26"
| "regs_after_init PRE_RANGE_CONFIG_TIMEOUT_MACROP_HI i = (if i = 0 then 0x00 else 0x96)"
| "regs_after_init FINAL_RANGE_CONFIG_TIMEOUT_MACROP_HI i = (if i = 0 then 0x02 else 0xC3)"
| "regs_after_init reg i = 0"

text \<open>
  The same register contents on a sensor whose \<open>RESULT_INTERRUPT_STATUS\<close> reads
  \<open>0x01\<close> (a measurement or calibration is reported ready), with a chosen pre-range
  period register and a chosen MSRC timeout register.
\<close>

definition regs_ready :: "u8 \<Rightarrow> u8 \<Rightarrow> regAddr \<Rightarrow> nat \<Rightarrow> u8" where
  "regs_ready period_reg msrc_reg =
     regs_after_init
       (RESULT_INTERRUPT_STATUS := \<lambda>i. 0x01,
        PRE_RANGE_CONFIG_VCSEL_PERIOD := \<lambda>i. period_reg,
        MSRC_CONFIG_TIMEOUT_MACROP := \<lambda>i. msrc_reg)"

definition fresh_handle :: VL53L0X where
  "fresh_handle = \<lparr> address = 0x29, io_2v8 = True, stop_variable = 0,
                     measurement_timing_budget_us = 0, did_timeout = False \<rparr>"

section \<open>The timeout codec\<close>

subsection \<open>The fields of a register value, as numbers\<close>

lemma and_255_nat: "(n::nat) AND 255 = n mod 256"
proof -
  have m: "(255::nat) = mask 8" by (simp add: mask_eq_exp_minus_1)
  show ?thesis unfolding m by (simp only: take_bit_eq_mask [symmetric] take_bit_eq_mod) simp
qed

lemma unat_lo: "unat ((r::u16) AND 0x00FF) = unat r mod 256"
  by (simp add: unsigned_and_eq and_255_nat)

lemma drop_and_hi: "drop_bit 8 ((r::u16) AND 0xFF00) = drop_bit 8 r"
proof -
  have m: "(0xFF00::u16) = push_bit 8 (mask 8)" by (simp add: mask_eq_exp_minus_1)
  show ?thesis unfolding m
    by (rule bit_word_eqI) (auto simp add: bit_simps dest: bit_imp_le_length)
qed

lemma unat_hi: "unat (drop_bit 8 ((r::u16) AND 0xFF00)) = unat r div 256"
  unfolding drop_and_hi by (simp add: drop_bit_eq_div unat_div)

lemma unat_decodeTimeout:
  "unat (decodeTimeout r) = ((unat r mod 256) * 2 ^ (unat r div 256)) mod 65536 + 1"
proof -
  let ?m = "unat r mod 256" and ?e = "unat r div 256"
  have lo: "unat (ucast (r AND 0x00FF) :: u32) = ?m"
    by (simp add: unsigned_ucast_eq unat_lo take_bit_eq_mod)
  define x :: u32 where "x = ucast (r AND 0x00FF)"
  have lo': "unat x = ?m" unfolding x_def by (rule lo)
  have "unat (ucast (push_bit ?e x) :: u16) = take_bit 16 (unat (push_bit ?e x))"
    by (simp add: unsigned_ucast_eq)
  also have "\<dots> = take_bit 16 (take_bit 32 (push_bit ?e (unat x)))"
    by (simp add: unsigned_push_bit_eq)
  also have "\<dots> = (?m * 2 ^ ?e) mod 65536"
    unfolding lo' take_bit_take_bit by (simp add: take_bit_eq_mod push_bit_eq_mult)
  finally have a: "unat (ucast (push_bit ?e (ucast (r AND 0x00FF) :: u32)) :: u16)
          = (?m * 2 ^ ?e) mod 65536" unfolding x_def .
  have odd: "(?m * 2 ^ ?e) mod 65536 \<noteq> 65535"
  proof (cases "?e = 0")
    case True
    have "?m < 256" by simp
    then show ?thesis using True by simp
  next
    case False
    then have "even (?m * 2 ^ ?e)" by simp
    then have "even ((?m * 2 ^ ?e) mod 65536)"
      by (rule dvd_mod) simp
    then show ?thesis by auto
  qed
  have "(?m * 2 ^ ?e) mod 65536 < 65536" by simp
  with odd have lt: "(?m * 2 ^ ?e) mod 65536 + 1 < 65536" by linarith
  have "unat (decodeTimeout r) = ((?m * 2 ^ ?e) mod 65536 + 1) mod 65536"
    unfolding decodeTimeout_def unat_hi by (simp only: unat_word_ariths a) simp
  then show ?thesis using lt by simp
qed

subsection \<open>The encoder's loop\<close>

lemma hi_mask32: "(0xFFFFFF00::u32) = NOT (mask 8)"
  by (simp add: mask_eq_exp_minus_1)

lemma loop_cond: "((ls::u32) AND 0xFFFFFF00 > 0) = (256 \<le> unat ls)"
proof -
  have "(ls AND NOT (mask 8) = 0) = (ls AND mask 8 = ls)"
    by (auto simp add: bit_eq_iff bit_simps)
  also have "\<dots> = (uint ls < 2 ^ 8)" by (rule mask_eq_iff)
  also have "\<dots> = (unat ls < 256)"
  proof -
    have "(uint ls < 2 ^ 8) = (ls < 256)" by (simp add: word_less_alt)
    moreover have "(unat ls < 256) = (ls < 256)" by (simp add: word_less_nat_alt)
    ultimately show ?thesis by simp
  qed
  finally have "(ls AND NOT (mask 8) = 0) = (unat ls < 256)" .
  then show ?thesis unfolding hi_mask32 by (auto simp add: word_greater_zero_iff)
qed

lemma encodeTimeout_loop_char:
  "\<exists>k. encodeTimeout_loop ls ms = (drop_bit k ls, ms + of_nat k)
        \<and> unat (drop_bit k ls) < 256
        \<and> (\<forall>j. unat ls < 2 ^ (8 + j) \<longrightarrow> k \<le> j)"
proof (induction ls ms rule: encodeTimeout_loop.induct)
  case (1 ls_byte ms_byte)
  show ?case
  proof (cases "256 \<le> unat ls_byte")
    case False
    then have "encodeTimeout_loop ls_byte ms_byte = (ls_byte, ms_byte)"
      by (subst encodeTimeout_loop.simps) (simp add: loop_cond)
    with False show ?thesis by (intro exI [of _ 0]) simp
  next
    case True
    then have c: "0 < ls_byte AND 0xFFFFFF00" by (simp add: loop_cond)
    from "1.IH" [OF c] obtain k where
      k: "encodeTimeout_loop (drop_bit 1 ls_byte) (ms_byte + 1)
            = (drop_bit k (drop_bit 1 ls_byte), ms_byte + 1 + of_nat k)"
         "unat (drop_bit k (drop_bit 1 ls_byte)) < 256"
         "\<forall>j. unat (drop_bit 1 ls_byte) < 2 ^ (8 + j) \<longrightarrow> k \<le> j"
      by blast
    have d: "drop_bit k (drop_bit 1 ls_byte) = drop_bit (Suc k) ls_byte"
      by (simp add: drop_bit_drop_bit)
    have e: "encodeTimeout_loop ls_byte ms_byte
               = (drop_bit (Suc k) ls_byte, ms_byte + of_nat (Suc k))"
      using c k(1) by (subst encodeTimeout_loop.simps) (simp add: d)
    have b: "Suc k \<le> j" if j: "unat ls_byte < 2 ^ (8 + j)" for j
    proof (cases j)
      case 0
      with j True show ?thesis by simp
    next
      case (Suc j')
      have "unat (drop_bit 1 ls_byte) = unat ls_byte div 2"
        by (simp add: drop_bit_eq_div unat_div)
      moreover have "(2::nat) ^ (8 + Suc j') = 2 * 2 ^ (8 + j')"
        by (simp only: add_Suc_right power_Suc)
      ultimately have "unat (drop_bit 1 ls_byte) < 2 ^ (8 + j')"
        using j unfolding Suc by linarith
      with k(3) have "k \<le> j'" by blast
      with Suc show ?thesis by simp
    qed
    from e k(2) b show ?thesis unfolding d by blast
  qed
qed

lemma pack_hi_lo:
  fixes ms :: u16 and ls :: u32
  assumes "unat ms \<le> 8" and "unat ls < 256"
  shows "unat (ucast (push_bit 8 (ucast ms :: u32) OR (ls AND 0xFF)) :: u16)
           = unat ms * 256 + unat ls"
proof -
  have m: "(0xFF::u32) = mask 8" by (simp add: mask_eq_exp_minus_1)
  have "push_bit 8 (ucast ms :: u32) OR (ls AND mask 8)
          = push_bit 8 (ucast ms :: u32) + (ls AND mask 8)"
    by (rule disjunctive_add [symmetric]) (auto simp add: bit_simps)
  then have "unat (push_bit 8 (ucast ms :: u32) OR (ls AND 0xFF))
          = (unat (push_bit 8 (ucast ms :: u32)) + unat (ls AND mask 8)) mod 2 ^ 32"
    unfolding m by (simp add: unat_word_ariths)
  moreover have "unat (ls AND mask 8) = unat ls"
    using assms(2) by (simp add: take_bit_eq_mask [symmetric] take_bit_eq_mod unat_mod)
  moreover have "unat (push_bit 8 (ucast ms :: u32)) = unat ms * 256"
  proof -
    have "unat ms < 2 ^ 16" using unsigned_less [of ms, where ?'a = nat] by simp
    then have "unat (ucast ms :: u32) = unat ms"
      by (simp add: unsigned_ucast_eq take_bit_eq_mod)
    then have "unat (push_bit 8 (ucast ms :: u32)) = (unat ms * 256) mod 2 ^ 32"
      unfolding unsigned_push_bit_eq by (simp add: take_bit_eq_mod push_bit_eq_mult)
    with assms(1) show ?thesis by simp
  qed
  ultimately have "unat (push_bit 8 (ucast ms :: u32) OR (ls AND 0xFF))
          = unat ms * 256 + unat ls"
    using assms by simp
  then have "unat (ucast (push_bit 8 (ucast ms :: u32) OR (ls AND 0xFF)) :: u16)
           = (unat ms * 256 + unat ls) mod 65536"
    by (simp add: unsigned_ucast_eq take_bit_eq_mod)
  with assms show ?thesis by simp
qed

lemma unat_encodeTimeout:
  assumes "v \<noteq> 0"
  shows "\<exists>k\<le>8. unat (encodeTimeout v) = k * 256 + (unat v - 1) div 2 ^ k
               \<and> (unat v - 1) div 2 ^ k < 256
               \<and> (unat v \<le> 256 \<longrightarrow> k = 0)"
proof -
  define ls :: u32 where "ls = ucast v - 1"
  have "unat v < 65536" using unsigned_less [of v, where ?'a = nat] by simp
  then have uv: "unat (ucast v :: u32) = unat v"
    by (simp add: unsigned_ucast_eq take_bit_eq_mod)
  from assms have "0 < unat v" by (simp add: unat_gt_0)
  then have "(ucast v :: u32) \<noteq> 0" using uv by (metis unat_gt_0)
  then have ls: "unat ls = unat v - 1"
    unfolding ls_def by (simp add: unat_minus_one uv)
  obtain k where k: "encodeTimeout_loop ls 0 = (drop_bit k ls, 0 + of_nat k)"
      "unat (drop_bit k ls) < 256" "\<forall>j. unat ls < 2 ^ (8 + j) \<longrightarrow> k \<le> j"
    using encodeTimeout_loop_char [of ls 0] by blast
  have "unat ls < 2 ^ (8 + 8)" using ls \<open>unat v < 65536\<close> by simp
  with k(3) have k8: "k \<le> 8" by blast
  have k0: "k = 0" if "unat v \<le> 256"
  proof -
    have "unat ls < 2 ^ (8 + 0)" using ls that \<open>0 < unat v\<close> by simp
    with k(3) have "k \<le> 0" by blast
    then show ?thesis by simp
  qed
  have ms: "unat (of_nat k :: u16) = k" using k8 by (simp add: unat_of_nat)
  have dl: "unat (drop_bit k ls) = (unat v - 1) div 2 ^ k"
    unfolding unat_drop_bit_eq by (simp add: drop_bit_eq_div ls)
  have "encodeTimeout v
          = ucast (push_bit 8 (ucast (of_nat k :: u16) :: u32) OR (drop_bit k ls AND 0xFF))"
    using assms k(1) unfolding encodeTimeout_def ls_def [symmetric]
    by (simp add: word_greater_zero_iff)
  then have "unat (encodeTimeout v) = k * 256 + (unat v - 1) div 2 ^ k"
    using pack_hi_lo [of "of_nat k" "drop_bit k ls"] k(2) k8 ms dl by simp
  with k8 k(2) dl k0 show ?thesis by auto
qed

text \<open>
  Claim C5. The claim reads: for every 16-bit register value, \<open>VL53L0X_decodeTimeout\<close>
  is (mantissa << exponent) + 1 in unbounded arithmetic, the mantissa the low byte
  and the exponent the high byte. The function returns a \<open>uint16_t\<close> and casts the
  shifted mantissa to \<open>uint16_t\<close> before adding 1 (its note says so: "the return
  value is always stored in a uint16_t"). At the register value \<open>0x09FF\<close> it
  returns 65025, where the unbounded formula gives 130561.
\<close>

theorem decodeTimeout_not_unbounded:
  "decodeTimeout 0x09FF = 65025 \<and>
   (unat (0x09FF :: u16) mod 256) * 2 ^ (unat (0x09FF :: u16) div 256) + 1 = (130561 :: nat)"
  by (simp add: decodeTimeout_def)

text \<open>
  Claim C5, as amended: for every 16-bit register value, \<open>VL53L0X_decodeTimeout\<close> is
  ((mantissa << exponent) mod 65536) + 1, the shifted mantissa cut to 16 bits before
  the increment (which then never wraps); so it is (mantissa << exponent) + 1 exactly
  when the shifted mantissa is below 65536.
\<close>

theorem decodeTimeout_truncated:
  "unat (decodeTimeout reg_val)
     = ((unat reg_val mod 256) * 2 ^ (unat reg_val div 256)) mod 65536 + 1 \<and>
   ((unat reg_val mod 256) * 2 ^ (unat reg_val div 256) < 65536 \<longrightarrow>
      unat (decodeTimeout reg_val) = (unat reg_val mod 256) * 2 ^ (unat reg_val div 256) + 1)"
  by (simp add: unat_decodeTimeout)

theorem decodeTimeout_truncated_witness:
  "(unat (0x0103 :: u16) mod 256) * 2 ^ (unat (0x0103 :: u16) div 256) < (65536 :: nat) \<and>
   unat (decodeTimeout 0x0103) = 7"
  using decodeTimeout_truncated [of "0x0103"] by simp

lemma decode_encode_unat:
  "(1 \<le> unat v \<and> unat v \<le> 256 \<longrightarrow> decodeTimeout (encodeTimeout v) = v) \<and>
   (v \<noteq> 0 \<longrightarrow>
      unat (decodeTimeout (encodeTimeout v)) \<le> unat v \<and>
      unat v - unat (decodeTimeout (encodeTimeout v))
        = (unat v - 1) mod 2 ^ (unat (encodeTimeout v) div 256) \<and>
      unat (encodeTimeout v) div 256 \<le> 8)"
proof (cases "v = 0")
  case True
  then show ?thesis by simp
next
  case False
  then have pos: "0 < unat v" by (simp add: unat_gt_0)
  have lt: "unat v < 65536" using unsigned_less [of v, where ?'a = nat] by simp
  from unat_encodeTimeout [OF False] obtain k where k: "k \<le> 8"
    "unat (encodeTimeout v) = k * 256 + (unat v - 1) div 2 ^ k"
    "(unat v - 1) div 2 ^ k < 256" "unat v \<le> 256 \<longrightarrow> k = 0"
    by blast
  let ?m = "(unat v - 1) div 2 ^ k"
  have e: "unat (encodeTimeout v) div 256 = k" using k(2,3) by simp
  have m: "unat (encodeTimeout v) mod 256 = ?m" using k(2,3) by simp
  have split: "?m * 2 ^ k + (unat v - 1) mod 2 ^ k = unat v - 1"
    by (rule div_mult_mod_eq)
  then have le: "?m * 2 ^ k \<le> unat v - 1" by linarith
  then have "?m * 2 ^ k < 65536" using lt by linarith
  then have d: "unat (decodeTimeout (encodeTimeout v)) = ?m * 2 ^ k + 1"
    by (simp add: unat_decodeTimeout e m)
  have a: "unat (decodeTimeout (encodeTimeout v)) \<le> unat v" using d le pos by linarith
  have b: "unat v - unat (decodeTimeout (encodeTimeout v)) = (unat v - 1) mod 2 ^ k"
    using d split pos by linarith
  have c: "decodeTimeout (encodeTimeout v) = v" if "unat v \<le> 256"
  proof -
    from that k(4) have "k = 0" by simp
    with d pos have "unat (decodeTimeout (encodeTimeout v)) = unat v" by simp
    then show ?thesis by (simp add: word_eq_iff_unsigned [where ?'a = nat])
  qed
  from a b c k(1) show ?thesis unfolding e by blast
qed

text \<open>
  Claim C6. For every MCLK count v from 1 to 256 the round trip
  \<open>VL53L0X_decodeTimeout (VL53L0X_encodeTimeout v)\<close> is v. For every v that is not
  0 it is at most v, and v exceeds it by exactly the bits of v - 1 that the encoder's
  right shifts dropped: (v - 1) mod 2^e, where e is the number of shifts, the high
  byte of the encoded value, and e is at most 8.
\<close>

theorem encode_decode_roundtrip:
  "(1 \<le> unat v \<and> unat v \<le> 256 \<longrightarrow> decodeTimeout (encodeTimeout v) = v) \<and>
   (v \<noteq> 0 \<longrightarrow>
      unat (decodeTimeout (encodeTimeout v)) \<le> unat v \<and>
      unat v - unat (decodeTimeout (encodeTimeout v))
        = (unat v - 1) mod 2 ^ (unat (encodeTimeout v) div 256) \<and>
      unat (encodeTimeout v) div 256 \<le> 8)"
  by (rule decode_encode_unat)

theorem encode_decode_roundtrip_witness:
  "1 \<le> unat (256 :: u16) \<and> unat (256 :: u16) \<le> 256 \<and>
   decodeTimeout (encodeTimeout 256) = 256 \<and>
   (1000 :: u16) \<noteq> 0 \<and>
   unat (decodeTimeout (encodeTimeout 1000)) = 997 \<and>
   unat (encodeTimeout 1000) div 256 = 2 \<and> (unat (1000 :: u16) - 1) mod 2 ^ 2 = 3"
proof -
  have "encodeTimeout 1000 = 761" "encodeTimeout 256 = 255"
    by (simp_all add: encodeTimeout_def encodeTimeout_loop.simps)
  with encode_decode_roundtrip [of 256] encode_decode_roundtrip [of 1000]
  show ?thesis by (simp add: decodeTimeout_def)
qed

section \<open>MCLKs and microseconds\<close>

lemma roundtrip_mclks_nat:
  fixes c mp h :: nat
  assumes "1000 \<le> 2 * h" and "2 * h \<le> mp"
    and "2 * h < mp \<or> \<not> 1000 dvd (c * mp + h)"
  shows "((c * mp + h) div 1000 * 1000 + h) div mp = c"
proof -
  define q where "q = (c * mp + h) div 1000"
  have s: "q * 1000 + (c * mp + h) mod 1000 = c * mp + h"
    unfolding q_def by (rule div_mult_mod_eq)
  have r: "(c * mp + h) mod 1000 < 1000" by simp
  have lo: "mp * c \<le> q * 1000 + h" using s r assms(1) by (subst mult.commute) linarith
  have "q * 1000 + h < c * mp + mp"
  proof (cases "2 * h < mp")
    case True
    with s show ?thesis by linarith
  next
    case False
    with assms(3) have "\<not> 1000 dvd (c * mp + h)" by simp
    then have "0 < (c * mp + h) mod 1000" by (simp add: dvd_eq_mod_eq_0)
    with s assms(2) show ?thesis by linarith
  qed
  then have hi: "q * 1000 + h < mp * Suc c" by (simp add: mult.commute)
  from lo hi have "(q * 1000 + h) div mp = c" by (rule div_nat_eqI)
  then show ?thesis unfolding q_def .
qed

lemma roundtrip_us_nat:
  fixes us mp :: nat
  assumes "0 < mp"
  shows "us \<le> (((us * 1000 + mp div 2) div mp) * mp + mp div 2) div 1000 
       \<and> (((us * 1000 + mp div 2) div mp) * mp + mp div 2) div 1000 \<le> us + mp div 1000"
proof -
  define h where "h = mp div 2"
  define c where "c = (us * 1000 + h) div mp"
  have s: "c * mp + (us * 1000 + h) mod mp = us * 1000 + h"
    unfolding c_def by (rule div_mult_mod_eq)
  have r: "(us * 1000 + h) mod mp < mp" using assms by simp
  have h2: "2 * h \<le> mp" "mp \<le> 2 * h + 1" unfolding h_def by linarith+
  have "us * 1000 \<le> c * mp + h" using s r h2 by linarith
  then have lo: "us \<le> (c * mp + h) div 1000"
    by (simp add: less_eq_div_iff_mult_less_eq)
  have "c * mp + h \<le> us * 1000 + mp" using s h2 by linarith
  then have "(c * mp + h) div 1000 \<le> (us * 1000 + mp) div 1000" by (rule div_le_mono)
  then have hi: "(c * mp + h) div 1000 \<le> us + mp div 1000" by simp
  from lo hi show ?thesis unfolding c_def h_def by simp
qed

lemma unat_ucast_8_32: "unat (ucast (p::u8) :: u32) = unat p"
proof -
  have "unat p < 2 ^ 8" using unsigned_less [of p, where ?'a = nat] by simp
  then show ?thesis by (simp add: unsigned_ucast_eq take_bit_eq_mod)
qed

lemma unat_ucast_16_32: "unat (ucast (c::u16) :: u32) = unat c"
proof -
  have "unat c < 2 ^ 16" using unsigned_less [of c, where ?'a = nat] by simp
  then show ?thesis by (simp add: unsigned_ucast_eq take_bit_eq_mod)
qed

lemma unat_calcMacroPeriod:
  "unat (calcMacroPeriod p) = (2304 * unat p * 1655 + 500) div 1000"
proof -
  have "unat p < 256" using unsigned_less [of p, where ?'a = nat] by simp
  then have "2304 * unat p * 1655 + 500 < 2 ^ 32" by simp
  moreover have "unat ((2304 * ucast p * 1655) + 500 :: u32)
                   = (2304 * unat p * 1655 + 500) mod 2 ^ 32"
    by (simp add: unat_word_ariths unat_ucast_8_32 mod_simps)
  ultimately have "unat ((2304 * ucast p * 1655) + 500 :: u32) = 2304 * unat p * 1655 + 500"
    by simp
  then show ?thesis unfolding calcMacroPeriod_def by (simp add: unat_div)
qed

lemma unat_timeoutMclksToMicroseconds:
  assumes "unat c * unat (calcMacroPeriod p) + unat (calcMacroPeriod p) div 2 < 2 ^ 32"
  shows "unat (timeoutMclksToMicroseconds c p)
           = (unat c * unat (calcMacroPeriod p) + unat (calcMacroPeriod p) div 2) div 1000"
proof -
  define M where "M = calcMacroPeriod p"
  have "unat (ucast c * M + M div 2)
          = (unat c * unat M + unat M div 2) mod 2 ^ 32"
    by (simp add: unat_word_ariths unat_ucast_16_32 unat_div mod_simps)
  with assms have "unat (ucast c * M + M div 2) = unat c * unat M + unat M div 2"
    unfolding M_def by simp
  then show ?thesis
    unfolding timeoutMclksToMicroseconds_def Let_def M_def [symmetric] by (simp add: unat_div)
qed

lemma unat_timeoutMicrosecondsToMclks:
  assumes "unat us * 1000 + unat (calcMacroPeriod p) div 2 < 2 ^ 32"
  shows "unat (timeoutMicrosecondsToMclks us p)
           = (unat us * 1000 + unat (calcMacroPeriod p) div 2) div unat (calcMacroPeriod p)"
proof -
  define M where "M = calcMacroPeriod p"
  have "unat (us * 1000 + M div 2) = (unat us * 1000 + unat M div 2) mod 2 ^ 32"
    by (simp add: unat_word_ariths unat_div mod_simps)
  with assms have "unat (us * 1000 + M div 2) = unat us * 1000 + unat M div 2"
    unfolding M_def by simp
  then show ?thesis
    unfolding timeoutMicrosecondsToMclks_def Let_def M_def [symmetric] by (simp add: unat_div)
qed

lemma roundtrip_mclks_word:
  assumes MP: "unat (calcMacroPeriod p) = mp"
    and big: "1000 \<le> 2 * (mp div 2)"
    and fit: "(unat c + 1) * mp < 2 ^ 32"
    and tie: "2 * (mp div 2) < mp \<or> \<not> 1000 dvd (unat c * mp + mp div 2)"
  shows "timeoutMicrosecondsToMclks (timeoutMclksToMicroseconds c p) p = ucast c"
proof -
  define h where "h = mp div 2"
  have h2: "2 * h \<le> mp" unfolding h_def by simp
  have f1: "unat c * mp + h < 2 ^ 32" using fit h2 by (simp add: algebra_simps)
  then have a: "unat (timeoutMclksToMicroseconds c p) = (unat c * mp + h) div 1000"
    using unat_timeoutMclksToMicroseconds [of c p] unfolding MP h_def by simp
  have "(unat c * mp + h) div 1000 * 1000 \<le> unat c * mp + h" by simp
  then have "(unat c * mp + h) div 1000 * 1000 + h < 2 ^ 32"
    using fit h2 by (simp add: algebra_simps)
  then have "unat (timeoutMicrosecondsToMclks (timeoutMclksToMicroseconds c p) p)
               = ((unat c * mp + h) div 1000 * 1000 + h) div mp"
    using unat_timeoutMicrosecondsToMclks [of "timeoutMclksToMicroseconds c p" p]
    unfolding MP a h_def by simp
  also have "\<dots> = unat c"
    using big h2 tie unfolding h_def by (intro roundtrip_mclks_nat) simp_all
  finally show ?thesis
    by (simp add: word_eq_iff_unsigned [where ?'a = nat] unat_ucast_16_32)
qed

lemma roundtrip_us_word:
  assumes MP: "unat (calcMacroPeriod p) = mp"
    and lo: "30505 \<le> mp" and hi: "mp \<le> 68636"
    and us: "unat us \<le> 1999000"
  shows "unat us \<le> unat (timeoutMclksToMicroseconds (ucast (timeoutMicrosecondsToMclks us p)) p)
       \<and> unat (timeoutMclksToMicroseconds (ucast (timeoutMicrosecondsToMclks us p)) p)
             \<le> unat us + mp div 1000"
proof -
  define h where "h = mp div 2"
  define c where "c = (unat us * 1000 + h) div mp"
  have h2: "h \<le> 34318" unfolding h_def using hi by simp
  have f1: "unat us * 1000 + h < 2 ^ 32" using us h2 by simp
  then have a: "unat (timeoutMicrosecondsToMclks us p) = c"
    using unat_timeoutMicrosecondsToMclks [of us p] unfolding MP h_def c_def by simp
  have "unat us * 1000 + h < 65536 * mp" using us h2 lo by simp
  then have c16: "c < 65536" unfolding c_def by (rule less_mult_imp_div_less)
  then have b: "unat (ucast (timeoutMicrosecondsToMclks us p) :: u16) = c"
    using a by (simp add: unsigned_ucast_eq take_bit_eq_mod)
  have "c * mp \<le> unat us * 1000 + h" unfolding c_def by simp
  then have "c * mp + h < 2 ^ 32" using us h2 by simp
  then have d: "unat (timeoutMclksToMicroseconds (ucast (timeoutMicrosecondsToMclks us p)) p)
                  = (c * mp + h) div 1000"
    using unat_timeoutMclksToMicroseconds [of "ucast (timeoutMicrosecondsToMclks us p)" p]
    unfolding MP b h_def by simp
  have "0 < mp" using lo by simp
  from roundtrip_us_nat [OF this, of "unat us"] show ?thesis
    unfolding d c_def h_def by simp
qed

lemma macro_periods:
  "unat (calcMacroPeriod 8) = 30505" "unat (calcMacroPeriod 10) = 38131"
  "unat (calcMacroPeriod 12) = 45757" "unat (calcMacroPeriod 14) = 53384"
  "unat (calcMacroPeriod 16) = 61010" "unat (calcMacroPeriod 18) = 68636"
  by (simp_all add: unat_calcMacroPeriod)

lemma not_dvd_p14_8: "\<not> 8 dvd ((n::nat) * 53384 + 26692)"
proof
  assume "8 dvd (n * 53384 + 26692)"
  moreover have "n * 53384 + 26692 = 8 * (n * 6673 + 3336) + 4" by simp
  ultimately have "8 dvd (8 * (n * 6673 + 3336) + 4)" by simp
  then have "(8::nat) dvd 4" by (simp only: dvd_add_right_iff dvd_triv_left)
  then show False by simp
qed

lemma not_dvd_p14: "\<not> 1000 dvd ((n::nat) * 53384 + 26692)"
proof
  assume a: "1000 dvd (n * 53384 + 26692)"
  have "(8::nat) dvd 1000" by simp
  from dvd_trans [OF this a] not_dvd_p14_8 show False by blast
qed

lemma not_dvd_p16: "\<not> 1000 dvd ((n::nat) * 61010 + 30505)"
proof
  assume a: "1000 dvd (n * 61010 + 30505)"
  have "(2::nat) dvd 1000" by simp
  from dvd_trans [OF this a] show False by simp
qed

lemma not_dvd_p18: "\<not> 1000 dvd ((n::nat) * 68636 + 34318)"
proof
  assume a: "1000 dvd (n * 68636 + 34318)"
  have "(4::nat) dvd 1000" by simp
  from dvd_trans [OF this a] have "4 dvd (n * 68636 + 34318)" .
  moreover have "n * 68636 + 34318 = 4 * (n * 17159 + 8579) + 2" by simp
  ultimately have "4 dvd (4 * (n * 17159 + 8579) + 2)" by simp
  then have "(4::nat) dvd 2" by (simp only: dvd_add_right_iff dvd_triv_left)
  then show False by simp
qed

lemma roundtrip_mclks_periods:
  assumes "p \<in> {8, 10, 12, 14, 16, 18}" and "p = 18 \<longrightarrow> unat c \<le> 62575"
  shows "timeoutMicrosecondsToMclks (timeoutMclksToMicroseconds c p) p = ucast c"
proof -
  have c16: "unat c < 65536" using unsigned_less [of c, where ?'a = nat] by simp
  consider "p = 8" | "p = 10" | "p = 12" | "p = 14" | "p = 16" | "p = 18"
    using assms(1) by auto
  then show ?thesis
  proof cases
    case 1
    from c16 have "(unat c + 1) * 30505 < 2 ^ 32" by simp
    then show ?thesis unfolding 1
      by (intro roundtrip_mclks_word [OF macro_periods(1)]) simp_all
  next
    case 2
    from c16 have "(unat c + 1) * 38131 < 2 ^ 32" by simp
    then show ?thesis unfolding 2
      by (intro roundtrip_mclks_word [OF macro_periods(2)]) simp_all
  next
    case 3
    from c16 have "(unat c + 1) * 45757 < 2 ^ 32" by simp
    then show ?thesis unfolding 3
      by (intro roundtrip_mclks_word [OF macro_periods(3)]) simp_all
  next
    case 4
    from c16 have "(unat c + 1) * 53384 < 2 ^ 32" by simp
    then show ?thesis unfolding 4
      using not_dvd_p14 [of "unat c"] by (intro roundtrip_mclks_word [OF macro_periods(4)]) simp_all
  next
    case 5
    from c16 have "(unat c + 1) * 61010 < 2 ^ 32" by simp
    then show ?thesis unfolding 5
      using not_dvd_p16 [of "unat c"] by (intro roundtrip_mclks_word [OF macro_periods(5)]) simp_all
  next
    case 6
    with assms(2) have "unat c \<le> 62575" by simp
    then have "(unat c + 1) * 68636 < 2 ^ 32" by simp
    then show ?thesis unfolding 6
      using not_dvd_p18 [of "unat c"] by (intro roundtrip_mclks_word [OF macro_periods(6)]) simp_all
  qed
qed

lemma macro_period_range:
  assumes "p \<in> {8, 10, 12, 14, 16, 18}"
  shows "30505 \<le> unat (calcMacroPeriod p)" "unat (calcMacroPeriod p) \<le> 68636"
  using assms macro_periods by auto

text \<open>
  Claim C7. The claim reads: for the pulse periods 8, 10, 12, 14, 16 and 18 the two
  conversions are approximate inverses, a round trip ending within one microsecond
  (respectively one MCLK) of where it started. From microseconds it does not: one
  MCLK is 30 to 68 microseconds long, and 1000 microseconds at period 8 become 33
  MCLKs and come back as 1021 microseconds.
\<close>

theorem microseconds_roundtrip_not_within_one:
  "timeoutMicrosecondsToMclks 1000 8 = 33 \<and>
   timeoutMclksToMicroseconds (ucast (timeoutMicrosecondsToMclks 1000 8)) 8 = 1021"
  by (simp add: timeoutMclksToMicroseconds_def timeoutMicrosecondsToMclks_def calcMacroPeriod_def)

text \<open>
  Claim C7, as amended: for the pulse periods 8, 10, 12, 14, 16 and 18, with
  macro_period_ns = (2304 * period * 1655 + 500) / 1000 and the round-half-up
  divisions of the two functions, (i) MCLKs to microseconds and back returns the
  MCLK count it started from, for every 16-bit count at the periods 8 to 16 and for
  every count up to 62575 at period 18 (above that the 32-bit product wraps); and
  (ii) microseconds to MCLKs and back returns, for every value up to 1999000
  microseconds, a value that is not smaller and exceeds the start by at most
  macro_period_ns / 1000 microseconds, that is one MCLK and not one microsecond.
\<close>

theorem conversion_roundtrips:
  assumes "p \<in> {8, 10, 12, 14, 16, 18}"
  shows "((p = 18 \<longrightarrow> unat c \<le> 62575) \<longrightarrow>
            timeoutMicrosecondsToMclks (timeoutMclksToMicroseconds c p) p = ucast c) \<and>
         (unat us \<le> 1999000 \<longrightarrow>
            unat us \<le> unat (timeoutMclksToMicroseconds (ucast (timeoutMicrosecondsToMclks us p)) p) \<and>
            unat (timeoutMclksToMicroseconds (ucast (timeoutMicrosecondsToMclks us p)) p)
              \<le> unat us + unat (calcMacroPeriod p) div 1000)"
  using roundtrip_mclks_periods [OF assms, of c]
    roundtrip_us_word [OF refl macro_period_range [OF assms], of us]
  by blast

theorem conversion_roundtrips_witness:
  "(18 :: u8) \<in> {8, 10, 12, 14, 16, 18} \<and> unat (62575 :: u16) \<le> 62575 \<and>
   timeoutMicrosecondsToMclks (timeoutMclksToMicroseconds 62575 18) 18 = 62575 \<and>
   unat (1000 :: u32) \<le> 1999000 \<and>
   timeoutMclksToMicroseconds (ucast (timeoutMicrosecondsToMclks 1000 18)) 18 = 1063 \<and>
   unat (calcMacroPeriod 18) div 1000 = 68"
  using conversion_roundtrips [of 18 62575 1000]
  by (simp add: timeoutMclksToMicroseconds_def timeoutMicrosecondsToMclks_def calcMacroPeriod_def)

section \<open>The timing budget\<close>

lemmas bus_ops = getSequenceStepEnables_def getSequenceStepTimeouts_def getVcselPulsePeriod_def
  readReg_def readReg16Bit_def writeReg_def writeReg16Bit_def Let_def

lemmas eval_defs = setMeasurementTimingBudget_def used_budget_us_def
  StartOverhead_def EndOverhead_def MsrcOverhead_def TccOverhead_def DssOverhead_def
  PreRangeOverhead_def FinalRangeOverhead_def MinTimingBudget_def
  timeoutMclksToMicroseconds_def timeoutMicrosecondsToMclks_def calcMacroPeriod_def
  decodeVcselPeriod_def decodeTimeout_def encodeTimeout_def encodeTimeout_loop.simps

lemma device_writeReg [simp]: "device (writeReg b reg val) = device b"
  by (simp add: writeReg_def)

lemma device_writeReg16Bit [simp]: "device (writeReg16Bit b reg val) = device b"
  by (simp add: writeReg16Bit_def)

lemma device_readReg [simp]: "device (snd (readReg b reg)) = device b"
  by (simp add: readReg_def)

lemma device_readReg16Bit [simp]: "device (snd (readReg16Bit b reg)) = device b"
  by (simp add: readReg16Bit_def)

lemma timeoutMclksToMicroseconds_le: "unat (timeoutMclksToMicroseconds c p) \<le> 4294967"
proof -
  have "unat x div 1000 \<le> 4294967" for x :: u32
    using unsigned_less [of x, where ?'a = nat] by simp
  then show ?thesis
    unfolding timeoutMclksToMicroseconds_def Let_def by (simp add: unat_div)
qed

lemma getSequenceStepTimeouts_us_le:
  "unat (msrc_dss_tcc_us (fst (getSequenceStepTimeouts b enables))) \<le> 4294967"
  "unat (pre_range_us (fst (getSequenceStepTimeouts b enables))) \<le> 4294967"
  unfolding getSequenceStepTimeouts_def
  by (simp_all add: Let_def timeoutMclksToMicroseconds_le split: prod.splits)

lemma used_budget_us_cost:
  assumes "unat (msrc_dss_tcc_us timeouts) \<le> 4294967"
    and "unat (pre_range_us timeouts) \<le> 4294967"
  shows "unat (used_budget_us enables timeouts + FinalRangeOverhead)
           = spec_budget_cost enables timeouts"
  using assms
  unfolding used_budget_us_def spec_budget_cost_def Let_def StartOverhead_def EndOverhead_def
    TccOverhead_def DssOverhead_def MsrcOverhead_def PreRangeOverhead_def FinalRangeOverhead_def
  by (simp add: unat_word_ariths)

text \<open>
  Claim C2. \<open>VL53L0X_setMeasurementTimingBudget\<close> fails for every budget below 20000
  and, when the final-range step is enabled, exactly when the budget is below the
  cost of the spec: the overheads 1320 + 960, the measured costs and overheads of the
  enabled steps, and 550. In every other case it succeeds. The driver returns a bare
  \<open>false\<close> for both failures. Its 32-bit sum never wraps, so it is the spec's
  number; the enables and timeouts are the ones the function reads from the bus.
\<close>

theorem setMeasurementTimingBudget_result:
  "fst (setMeasurementTimingBudget dev b budget_us) =
     (let enables = fst (getSequenceStepEnables b);
          timeouts = fst (getSequenceStepTimeouts (snd (getSequenceStepEnables b)) enables)
      in \<not> unat budget_us < 20000 \<and>
         \<not> (final_range enables \<and> unat budget_us < spec_budget_cost enables timeouts))"
proof -
  obtain enables b1 where e: "getSequenceStepEnables b = (enables, b1)"
    by (cases "getSequenceStepEnables b")
  obtain timeouts b2 where t: "getSequenceStepTimeouts b1 enables = (timeouts, b2)"
    by (cases "getSequenceStepTimeouts b1 enables")
  have le: "unat (msrc_dss_tcc_us timeouts) \<le> 4294967" "unat (pre_range_us timeouts) \<le> 4294967"
    using getSequenceStepTimeouts_us_le [of b1 enables] unfolding t by simp_all
  have c: "unat (used_budget_us enables timeouts + FinalRangeOverhead)
             = spec_budget_cost enables timeouts"
    by (rule used_budget_us_cost [OF le])
  show ?thesis
    unfolding setMeasurementTimingBudget_def Let_def MinTimingBudget_def
    by (simp add: e t word_less_nat_alt c)
qed

text \<open>
  Claim C8. The claim reads: whenever \<open>VL53L0X_setMeasurementTimingBudget\<close> succeeds, the
  handle's \<open>measurement_timing_budget_us\<close> is the requested budget, for every
  configuration of the step enables. The assignment stands inside
  \<open>if (enables.final_range)\<close>: with the final-range step disabled (the sequence
  configuration \<open>0x01\<close>, which \<open>VL53L0X_init\<close> itself sets for the VHV calibration)
  the function succeeds and the handle keeps its old budget, here 0.
\<close>

theorem setMeasurementTimingBudget_success_without_cache:
  "fst (setMeasurementTimingBudget fresh_handle
          \<lparr>device = constant_sensor 0x01, traffic = []\<rparr> 20000) = True \<and>
   final_range (fst (getSequenceStepEnables
          \<lparr>device = constant_sensor 0x01, traffic = []\<rparr>)) = False \<and>
   measurement_timing_budget_us
     (fst (snd (setMeasurementTimingBudget fresh_handle
                  \<lparr>device = constant_sensor 0x01, traffic = []\<rparr> 20000))) = 0"
  by (simp add: setMeasurementTimingBudget_def bus_ops constant_sensor_def fresh_handle_def
      MinTimingBudget_def)

text \<open>
  Claim C8, as amended: whenever \<open>VL53L0X_setMeasurementTimingBudget\<close> succeeds and the
  final-range step is enabled, the handle's \<open>measurement_timing_budget_us\<close> is the
  requested budget; when it succeeds with the final-range step disabled, the handle
  is unchanged.
\<close>

theorem setMeasurementTimingBudget_caches_budget:
  assumes "fst (setMeasurementTimingBudget dev b budget_us)"
  shows "if final_range (fst (getSequenceStepEnables b))
         then measurement_timing_budget_us (fst (snd (setMeasurementTimingBudget dev b budget_us)))
                = budget_us
         else fst (snd (setMeasurementTimingBudget dev b budget_us)) = dev"
  using assms unfolding setMeasurementTimingBudget_def Let_def
  by (simp split: prod.splits if_splits)

theorem setMeasurementTimingBudget_caches_budget_witness:
  "fst (setMeasurementTimingBudget fresh_handle
          \<lparr>device = register_file regs_after_init, traffic = []\<rparr> 33000) \<and>
   final_range (fst (getSequenceStepEnables
          \<lparr>device = register_file regs_after_init, traffic = []\<rparr>)) \<and>
   measurement_timing_budget_us
     (fst (snd (setMeasurementTimingBudget fresh_handle
                  \<lparr>device = register_file regs_after_init, traffic = []\<rparr> 33000))) = 33000"
proof -
  have ok: "fst (setMeasurementTimingBudget fresh_handle
          \<lparr>device = register_file regs_after_init, traffic = []\<rparr> 33000)"
    by (simp add: bus_ops eval_defs register_file_def)
  have fin: "final_range (fst (getSequenceStepEnables
          \<lparr>device = register_file regs_after_init, traffic = []\<rparr>))"
    by (simp add: bus_ops register_file_def)
  from setMeasurementTimingBudget_caches_budget [OF ok] fin ok show ?thesis by simp
qed

section \<open>The final-range timeout, written and read back\<close>

lemma register_file_Nil [simp]: "register_file init [] = init"
  by (simp add: register_file_def)

lemma register_file_Cons [simp]:
  "register_file init (e # es) = register_file (store_event init e) es"
  by (simp add: register_file_def)

lemma register_file_append [simp]:
  "register_file init (xs @ ys) = register_file (register_file init xs) ys"
  by (simp add: register_file_def)






section \<open>The polling loops\<close>

lemma calibration_wait_stuck:
  assumes stuck: "\<forall>log. device b log RESULT_INTERRUPT_STATUS 0 AND 0x07 = 0"
  shows "calibration_wait dev b = None"
proof (cases "calibration_wait dev b")
  case None
  then show ?thesis .
next
  case (Some y)
  have "\<not> (\<forall>log. device b log RESULT_INTERRUPT_STATUS 0 AND 0x07 = 0)"
  proof (rule calibration_wait.raw_induct
      [where P = "\<lambda>dev b y. \<not> (\<forall>log. device b log RESULT_INTERRUPT_STATUS 0 AND 0x07 = 0)",
        OF _ Some])
    fix wait :: "VL53L0X \<Rightarrow> bus \<Rightarrow> (bool \<times> bus) option" and dev b y
    assume IH: "\<And>dev b y. wait dev b = Some y \<Longrightarrow>
                  \<not> (\<forall>log. device b log RESULT_INTERRUPT_STATUS 0 AND 0x07 = 0)"
      and body: "(let r = readReg b RESULT_INTERRUPT_STATUS
                  in if fst r AND 0x07 = 0
                     then if checkTimeoutExpired dev then Some (True, snd r)
                          else wait dev (snd r)
                     else Some (False, snd r)) = Some y"
    show "\<not> (\<forall>log. device b log RESULT_INTERRUPT_STATUS 0 AND 0x07 = 0)"
    proof
      assume s: "\<forall>log. device b log RESULT_INTERRUPT_STATUS 0 AND 0x07 = 0"
      then have "fst (readReg b RESULT_INTERRUPT_STATUS) AND 0x07 = 0"
        by (simp add: readReg_def)
      with body have "wait dev (snd (readReg b RESULT_INTERRUPT_STATUS)) = Some y"
        by (simp add: Let_def checkTimeoutExpired_def)
      from IH [OF this] s show False by simp
    qed
  qed
  with stuck show ?thesis by simp
qed

lemma start_bit_wait_stuck:
  assumes stuck: "\<forall>log. device b log SYSRANGE_START 0 AND 0x01 \<noteq> 0"
  shows "start_bit_wait dev b = None"
proof (cases "start_bit_wait dev b")
  case None
  then show ?thesis .
next
  case (Some y)
  have "\<not> (\<forall>log. device b log SYSRANGE_START 0 AND 0x01 \<noteq> 0)"
  proof (rule start_bit_wait.raw_induct
      [where P = "\<lambda>dev b y. \<not> (\<forall>log. device b log SYSRANGE_START 0 AND 0x01 \<noteq> 0)",
        OF _ Some])
    fix wait :: "VL53L0X \<Rightarrow> bus \<Rightarrow> (bool \<times> bus) option" and dev b y
    assume IH: "\<And>dev b y. wait dev b = Some y \<Longrightarrow>
                  \<not> (\<forall>log. device b log SYSRANGE_START 0 AND 0x01 \<noteq> 0)"
      and body: "(let r = readReg b SYSRANGE_START
                  in if fst r AND 0x01 \<noteq> 0
                     then if checkTimeoutExpired dev then Some (True, snd r)
                          else wait dev (snd r)
                     else Some (False, snd r)) = Some y"
    show "\<not> (\<forall>log. device b log SYSRANGE_START 0 AND 0x01 \<noteq> 0)"
    proof
      assume s: "\<forall>log. device b log SYSRANGE_START 0 AND 0x01 \<noteq> 0"
      then have "fst (readReg b SYSRANGE_START) AND 0x01 \<noteq> 0"
        by (simp add: readReg_def)
      with body have "wait dev (snd (readReg b SYSRANGE_START)) = Some y"
        by (simp add: Let_def checkTimeoutExpired_def)
      from IH [OF this] s show False by simp
    qed
  qed
  with stuck show ?thesis by simp
qed

lemma calibration_wait_polls:
  assumes "device b (traffic b @ replicate n (ReadBytes RESULT_INTERRUPT_STATUS 1))
             RESULT_INTERRUPT_STATUS 0 AND 0x07 \<noteq> 0"
  shows "\<exists>k. calibration_wait dev b =
           Some (False, b\<lparr>traffic := traffic b @
                          replicate (Suc k) (ReadBytes RESULT_INTERRUPT_STATUS 1)\<rparr>)"
  using assms
proof (induction n arbitrary: b)
  case 0
  then have "calibration_wait dev b =
           Some (False, b\<lparr>traffic := traffic b @
                          replicate (Suc 0) (ReadBytes RESULT_INTERRUPT_STATUS 1)\<rparr>)"
    by (subst calibration_wait.simps) (simp add: Let_def readReg_def)
  then show ?case by blast
next
  case (Suc n)
  show ?case
  proof (cases "fst (readReg b RESULT_INTERRUPT_STATUS) AND 0x07 = 0")
    case False
    then have "calibration_wait dev b =
           Some (False, b\<lparr>traffic := traffic b @
                          replicate (Suc 0) (ReadBytes RESULT_INTERRUPT_STATUS 1)\<rparr>)"
      by (subst calibration_wait.simps) (simp add: Let_def readReg_def)
    then show ?thesis by blast
  next
    case True
    let ?b = "snd (readReg b RESULT_INTERRUPT_STATUS)"
    have "device ?b (traffic ?b @ replicate n (ReadBytes RESULT_INTERRUPT_STATUS 1))
             RESULT_INTERRUPT_STATUS 0 AND 0x07 \<noteq> 0"
      using Suc.prems by (simp add: readReg_def)
    from Suc.IH [OF this] obtain k where
      "calibration_wait dev ?b =
         Some (False, ?b\<lparr>traffic := traffic ?b @
                          replicate (Suc k) (ReadBytes RESULT_INTERRUPT_STATUS 1)\<rparr>)"
      by blast
    with True have "calibration_wait dev b =
           Some (False, b\<lparr>traffic := traffic b @
                          replicate (Suc (Suc k)) (ReadBytes RESULT_INTERRUPT_STATUS 1)\<rparr>)"
      by (subst calibration_wait.simps) (simp add: Let_def checkTimeoutExpired_def readReg_def)
    then show ?thesis by blast
  qed
qed

lemma performSingleRefCalibration_polls:
  assumes "device b (traffic (writeReg b SYSRANGE_START (0x01 OR vhv_init_byte))
                       @ replicate n (ReadBytes RESULT_INTERRUPT_STATUS 1))
             RESULT_INTERRUPT_STATUS 0 AND 0x07 \<noteq> 0"
  shows "\<exists>k. performSingleRefCalibration dev b vhv_init_byte =
           Some (True, b\<lparr>traffic := traffic b @
                   WriteBytes SYSRANGE_START [0x01 OR vhv_init_byte] #
                   replicate (Suc k) (ReadBytes RESULT_INTERRUPT_STATUS 1) @
                   [WriteBytes SYSTEM_INTERRUPT_CLEAR [0x01], WriteBytes SYSRANGE_START [0x00]]\<rparr>)"
proof -
  let ?b1 = "writeReg b SYSRANGE_START (0x01 OR vhv_init_byte)"
  have "device ?b1 (traffic ?b1 @ replicate n (ReadBytes RESULT_INTERRUPT_STATUS 1))
             RESULT_INTERRUPT_STATUS 0 AND 0x07 \<noteq> 0"
    using assms by simp
  from calibration_wait_polls [OF this, of "startTimeout dev"] obtain k where
    "calibration_wait (startTimeout dev) ?b1 =
       Some (False, ?b1\<lparr>traffic := traffic ?b1 @
                          replicate (Suc k) (ReadBytes RESULT_INTERRUPT_STATUS 1)\<rparr>)"
    by blast
  then have "performSingleRefCalibration dev b vhv_init_byte =
           Some (True, b\<lparr>traffic := traffic b @
                   WriteBytes SYSRANGE_START [0x01 OR vhv_init_byte] #
                   replicate (Suc k) (ReadBytes RESULT_INTERRUPT_STATUS 1) @
                   [WriteBytes SYSTEM_INTERRUPT_CLEAR [0x01], WriteBytes SYSRANGE_START [0x00]]\<rparr>)"
    unfolding performSingleRefCalibration_def Let_def by (simp add: writeReg_def)
  then show ?thesis by blast
qed

lemma device_getSequenceStepEnables [simp]:
  "device (snd (getSequenceStepEnables b)) = device b"
  by (simp add: getSequenceStepEnables_def readReg_def)

lemma device_getVcselPulsePeriod [simp]:
  "device (snd (getVcselPulsePeriod b type)) = device b"
  by (cases type) (simp_all add: getVcselPulsePeriod_def readReg_def)

lemma device_getSequenceStepTimeouts [simp]:
  "device (snd (getSequenceStepTimeouts b enables)) = device b"
  by (simp add: getSequenceStepTimeouts_def getVcselPulsePeriod_def readReg_def readReg16Bit_def
      Let_def)

lemma device_setMeasurementTimingBudget [simp]:
  "device (snd (snd (setMeasurementTimingBudget dev b budget_us))) = device b"
proof -
  obtain enables b1 where e: "getSequenceStepEnables b = (enables, b1)"
    by (cases "getSequenceStepEnables b")
  obtain timeouts b2 where t: "getSequenceStepTimeouts b1 enables = (timeouts, b2)"
    by (cases "getSequenceStepTimeouts b1 enables")
  have "device b1 = device b" using device_getSequenceStepEnables [of b] e by simp
  moreover have "device b2 = device b1" using device_getSequenceStepTimeouts [of b1 enables] t by simp
  ultimately show ?thesis
    unfolding setMeasurementTimingBudget_def Let_def by (simp add: e t)
qed

lemma setVcselPulsePeriod_apply_device:
  "setVcselPulsePeriod_apply b enables timeouts type p = Some b' \<Longrightarrow> device b' = device b"
  unfolding setVcselPulsePeriod_apply_def Let_def
  by (cases type) (auto split: if_splits)

lemma setVcselPulsePeriod_apply_None:
  "(setVcselPulsePeriod_apply b enables timeouts type p = None) = (p \<notin> spec_allowed_periods type)"
  unfolding setVcselPulsePeriod_apply_def Let_def
  by (cases type) (auto split: if_splits)

text \<open>
  Claim C4. The claim reads: every polling loop is bounded by the elapsed-time check,
  so that on a sensor that never reports ready the calibration wait returns failure
  and the single-shot wait sets the sticky flag and returns 65535. The loops do call
  \<open>VL53L0X_checkTimeoutExpired\<close> in every iteration, but its body is \<open>return 0;\<close>, the
  comparison against the clock commented out, and \<open>VL53L0X_startTimeout\<close> is empty.
  On a sensor whose \<open>RESULT_INTERRUPT_STATUS\<close> always reads 0 the calibration never
  returns, and on one whose \<open>SYSRANGE_START\<close> always reads 1 the single-shot read never
  returns: neither the failure nor the flag and the 65535 are ever produced.
\<close>

theorem polling_never_times_out:
  "performSingleRefCalibration fresh_handle
     \<lparr>device = constant_sensor 0x00, traffic = []\<rparr> 0x40 = None \<and>
   readRangeSingleMillimeters fresh_handle
     \<lparr>device = constant_sensor 0x01, traffic = []\<rparr> = None \<and>
   checkTimeoutExpired fresh_handle = False"
proof -
  have "calibration_wait dev b = None" if "device b = constant_sensor 0x00" for dev b
    using that by (intro calibration_wait_stuck) (simp add: constant_sensor_def)
  moreover have "start_bit_wait dev b = None" if "device b = constant_sensor 0x01" for dev b
    using that by (intro start_bit_wait_stuck) (simp add: constant_sensor_def)
  ultimately show ?thesis
    by (simp add: performSingleRefCalibration_def readRangeSingleMillimeters_def Let_def
        checkTimeoutExpired_def)
qed

section \<open>Changing the pulse period\<close>

text \<open>
  What the steps of \<open>VL53L0X_setVcselPulsePeriod\<close> send to the sensor, and the run
  of the whole function when the calibration it ends with is reported ready.
\<close>

lemma traffic_getSequenceStepEnables:
  "snd (getSequenceStepEnables b) = b\<lparr>traffic := traffic b @ [ReadBytes SYSTEM_SEQUENCE_CONFIG 1]\<rparr>"
  by (simp add: getSequenceStepEnables_def readReg_def)

lemma traffic_getSequenceStepTimeouts:
  "snd (getSequenceStepTimeouts b enables) =
     b\<lparr>traffic := traffic b @
          [ReadBytes PRE_RANGE_CONFIG_VCSEL_PERIOD 1,
           ReadBytes MSRC_CONFIG_TIMEOUT_MACROP 1,
           ReadBytes PRE_RANGE_CONFIG_TIMEOUT_MACROP_HI 2,
           ReadBytes FINAL_RANGE_CONFIG_VCSEL_PERIOD 1,
           ReadBytes FINAL_RANGE_CONFIG_TIMEOUT_MACROP_HI 2]\<rparr>"
  by (simp add: bus_ops)

lemma traffic_setMeasurementTimingBudget:
  "\<exists>sent. snd (snd (setMeasurementTimingBudget dev b budget_us)) = b\<lparr>traffic := traffic b @ sent\<rparr> \<and>
          (\<forall>reg bytes. WriteBytes reg bytes \<in> set sent \<longrightarrow> reg = FINAL_RANGE_CONFIG_TIMEOUT_MACROP_HI)"
proof -
  obtain enables b1 where e: "getSequenceStepEnables b = (enables, b1)"
    by (cases "getSequenceStepEnables b")
  obtain timeouts b2 where t: "getSequenceStepTimeouts b1 enables = (timeouts, b2)"
    by (cases "getSequenceStepTimeouts b1 enables")
  have b1: "b1 = b\<lparr>traffic := traffic b @ [ReadBytes SYSTEM_SEQUENCE_CONFIG 1]\<rparr>"
    using traffic_getSequenceStepEnables [of b] e by simp
  have b2: "b2 = b\<lparr>traffic := traffic b @
          [ReadBytes SYSTEM_SEQUENCE_CONFIG 1,
           ReadBytes PRE_RANGE_CONFIG_VCSEL_PERIOD 1,
           ReadBytes MSRC_CONFIG_TIMEOUT_MACROP 1,
           ReadBytes PRE_RANGE_CONFIG_TIMEOUT_MACROP_HI 2,
           ReadBytes FINAL_RANGE_CONFIG_VCSEL_PERIOD 1,
           ReadBytes FINAL_RANGE_CONFIG_TIMEOUT_MACROP_HI 2]\<rparr>"
    using traffic_getSequenceStepTimeouts [of b1 enables] t b1 by simp
  let ?reads = "[ReadBytes SYSTEM_SEQUENCE_CONFIG 1,
           ReadBytes PRE_RANGE_CONFIG_VCSEL_PERIOD 1,
           ReadBytes MSRC_CONFIG_TIMEOUT_MACROP 1,
           ReadBytes PRE_RANGE_CONFIG_TIMEOUT_MACROP_HI 2,
           ReadBytes FINAL_RANGE_CONFIG_VCSEL_PERIOD 1,
           ReadBytes FINAL_RANGE_CONFIG_TIMEOUT_MACROP_HI 2]"
  have "snd (snd (setMeasurementTimingBudget dev b budget_us)) = b
      \<or> snd (snd (setMeasurementTimingBudget dev b budget_us)) = b2
      \<or> (\<exists>w. snd (snd (setMeasurementTimingBudget dev b budget_us))
                         = writeReg16Bit b2 FINAL_RANGE_CONFIG_TIMEOUT_MACROP_HI w)"
    unfolding setMeasurementTimingBudget_def Let_def by (auto simp add: e t)
  then consider (none) "snd (snd (setMeasurementTimingBudget dev b budget_us)) = b"
    | (reads) "snd (snd (setMeasurementTimingBudget dev b budget_us)) = b2"
    | (wrote) w where "snd (snd (setMeasurementTimingBudget dev b budget_us))
                         = writeReg16Bit b2 FINAL_RANGE_CONFIG_TIMEOUT_MACROP_HI w"
    by blast
  then show ?thesis
  proof cases
    case none
    then have "snd (snd (setMeasurementTimingBudget dev b budget_us)) = b\<lparr>traffic := traffic b @ []\<rparr>"
      by simp
    then show ?thesis by (intro exI [of _ "[]"]) simp
  next
    case reads
    then show ?thesis unfolding b2 by (intro exI [of _ ?reads]) simp
  next
    case (wrote w)
    then show ?thesis unfolding b2 writeReg16Bit_def
      by (intro exI [of _ "?reads @ [WriteBytes FINAL_RANGE_CONFIG_TIMEOUT_MACROP_HI
                                      [ucast (drop_bit 8 w), ucast (w AND 0xFF)]]"]) simp
  qed
qed

lemma msrc_byte:
  fixes n :: u16
  shows "unat (if n > 256 then 255 else ucast ((ucast n :: u32) - 1) :: u8)
           = (if 256 < unat n then 255 else if unat n = 0 then 255 else unat n - 1)"
proof (cases "256 < unat n")
  case True
  then show ?thesis by (simp add: word_less_nat_alt)
next
  case False
  note le = this
  show ?thesis
  proof (cases "n = 0")
    case True
    have "(- 1 :: u32) = 0xFFFFFFFF" by simp
    then have "unat (ucast (- 1 :: u32) :: u8) = 255"
      by (simp only: unsigned_ucast_eq) (simp add: take_bit_eq_mod)
    with True show ?thesis by simp
  next
    case False
    then have pos: "0 < unat n" by (simp add: unat_gt_0)
    then have "(ucast n :: u32) \<noteq> 0" using unat_ucast_16_32 [of n] by (metis unat_gt_0)
    then have "unat ((ucast n :: u32) - 1) = unat n - 1"
      by (simp add: unat_minus_one unat_ucast_16_32)
    moreover have "unat n - 1 < 256" using le pos by simp
    ultimately have "unat (ucast ((ucast n :: u32) - 1) :: u8) = unat n - 1"
      by (simp add: unsigned_ucast_eq take_bit_eq_mod)
    with le pos show ?thesis by (simp add: word_less_nat_alt)
  qed
qed

lemma setVcselPulsePeriod_apply_pre_range:
  assumes "period_pclks \<in> {12, 14, 16, 18}"
  shows "\<exists>phase_high.
           setVcselPulsePeriod_apply b enables timeouts VcselPeriodPreRange period_pclks =
             Some (b\<lparr>traffic := traffic b @
               [WriteBytes PRE_RANGE_CONFIG_VALID_PHASE_HIGH [phase_high],
                WriteBytes PRE_RANGE_CONFIG_VALID_PHASE_LOW [0x08],
                WriteBytes PRE_RANGE_CONFIG_VCSEL_PERIOD [ucast (encodeVcselPeriod period_pclks)],
                WriteBytes PRE_RANGE_CONFIG_TIMEOUT_MACROP_HI
                  [ucast (drop_bit 8 (encodeTimeout (ucast (timeoutMicrosecondsToMclks
                      (pre_range_us timeouts) period_pclks)))),
                   ucast (encodeTimeout (ucast (timeoutMicrosecondsToMclks
                      (pre_range_us timeouts) period_pclks)) AND 0xFF)],
                WriteBytes MSRC_CONFIG_TIMEOUT_MACROP
                  [if (ucast (timeoutMicrosecondsToMclks (msrc_dss_tcc_us timeouts) period_pclks) :: u16)
                        > 256
                   then 255
                   else ucast ((ucast (ucast (timeoutMicrosecondsToMclks
                           (msrc_dss_tcc_us timeouts) period_pclks) :: u16) :: u32) - 1)]]\<rparr>)"
  using assms unfolding setVcselPulsePeriod_apply_def Let_def
  by (auto simp add: writeReg_def writeReg16Bit_def)

lemma setVcselPulsePeriod_trace:
  fixes dev :: VL53L0X and b :: bus and type :: vcselPeriodType and period_pclks :: u8 and n :: nat
  defines "e \<equiv> getSequenceStepEnables b"
  defines "t \<equiv> getSequenceStepTimeouts (snd e) (fst e)"
  defines "applied \<equiv> setVcselPulsePeriod_apply (snd t) (fst e) (fst t) type period_pclks"
  defines "reapplication \<equiv>
             setMeasurementTimingBudget dev (the applied) (measurement_timing_budget_us dev)"
  defines "polled \<equiv>
             writeReg (writeReg (snd (readReg (snd (snd reapplication)) SYSTEM_SEQUENCE_CONFIG))
                         SYSTEM_SEQUENCE_CONFIG 0x02) SYSRANGE_START 0x01"
  assumes allowed: "period_pclks \<in> spec_allowed_periods type"
    and ready: "device polled (traffic polled @ replicate n (ReadBytes RESULT_INTERRUPT_STATUS 1))
                  RESULT_INTERRUPT_STATUS 0 AND 0x07 \<noteq> 0"
  shows "\<exists>k. setVcselPulsePeriod dev b type period_pclks =
           Some (True, fst (snd reapplication),
                 polled\<lparr>traffic := traffic polled @
                   replicate (Suc k) (ReadBytes RESULT_INTERRUPT_STATUS 1) @
                   [WriteBytes SYSTEM_INTERRUPT_CLEAR [0x01], WriteBytes SYSRANGE_START [0x00],
                    WriteBytes SYSTEM_SEQUENCE_CONFIG
                      [fst (readReg (snd (snd reapplication)) SYSTEM_SEQUENCE_CONFIG)]]\<rparr>)"
proof -
  obtain enables b1 where e1: "getSequenceStepEnables b = (enables, b1)"
    by (cases "getSequenceStepEnables b")
  obtain timeouts b2 where t1: "getSequenceStepTimeouts b1 enables = (timeouts, b2)"
    by (cases "getSequenceStepTimeouts b1 enables")
  from allowed obtain b3 where
    a: "setVcselPulsePeriod_apply b2 enables timeouts type period_pclks = Some b3"
    using setVcselPulsePeriod_apply_None [of b2 enables timeouts type period_pclks] by auto
  obtain reapplied dev' b4 where
    s: "setMeasurementTimingBudget dev b3 (measurement_timing_budget_us dev) = (reapplied, dev', b4)"
    by (cases "setMeasurementTimingBudget dev b3 (measurement_timing_budget_us dev)")
  obtain sequence_config b5 where r: "readReg b4 SYSTEM_SEQUENCE_CONFIG = (sequence_config, b5)"
    by (cases "readReg b4 SYSTEM_SEQUENCE_CONFIG")
  have re: "reapplication = (reapplied, dev', b4)"
    unfolding reapplication_def applied_def t_def e_def by (simp add: e1 t1 a s)
  let ?b6 = "writeReg b5 SYSTEM_SEQUENCE_CONFIG 0x02"
  have p: "polled = writeReg ?b6 SYSRANGE_START 0x01"
    unfolding polled_def re by (simp add: r)
  have "device ?b6 (traffic (writeReg ?b6 SYSRANGE_START (0x01 OR 0x0))
                       @ replicate n (ReadBytes RESULT_INTERRUPT_STATUS 1))
             RESULT_INTERRUPT_STATUS 0 AND 0x07 \<noteq> 0"
    using ready unfolding p by simp
  from performSingleRefCalibration_polls [OF this, of dev'] obtain k where
    c: "performSingleRefCalibration dev' ?b6 0x0 =
          Some (True, ?b6\<lparr>traffic := traffic ?b6 @
                   WriteBytes SYSRANGE_START [0x01 OR 0x0] #
                   replicate (Suc k) (ReadBytes RESULT_INTERRUPT_STATUS 1) @
                   [WriteBytes SYSTEM_INTERRUPT_CLEAR [0x01], WriteBytes SYSRANGE_START [0x00]]\<rparr>)"
    by blast
  have "setVcselPulsePeriod dev b type period_pclks =
           Some (True, fst (snd reapplication),
                 polled\<lparr>traffic := traffic polled @
                   replicate (Suc k) (ReadBytes RESULT_INTERRUPT_STATUS 1) @
                   [WriteBytes SYSTEM_INTERRUPT_CLEAR [0x01], WriteBytes SYSRANGE_START [0x00],
                    WriteBytes SYSTEM_SEQUENCE_CONFIG
                      [fst (readReg (snd (snd reapplication)) SYSTEM_SEQUENCE_CONFIG)]]\<rparr>)"
    unfolding setVcselPulsePeriod_def p re
    by (simp add: e1 t1 a s r c) (simp add: writeReg_def)
  then show ?thesis by blast
qed

lemma register_file_unwritten:
  assumes "\<forall>bytes. WriteBytes reg bytes \<notin> set log"
  shows "register_file init log reg i = init reg i"
  using assms
proof (induction log arbitrary: init)
  case Nil
  then show ?case by simp
next
  case (Cons ev log)
  then have "register_file (store_event init ev) log reg i = store_event init ev reg i"
    by simp
  moreover have "store_event init ev reg i = init reg i"
    using Cons.prems by (cases ev) auto
  ultimately show ?case by simp
qed

lemma traffic_setVcselPulsePeriod_apply:
  assumes "setVcselPulsePeriod_apply b enables timeouts type p = Some b'"
  shows "\<exists>sent. b' = b\<lparr>traffic := traffic b @ sent\<rparr> \<and>
           (\<forall>bytes. WriteBytes RESULT_INTERRUPT_STATUS bytes \<notin> set sent)"
proof (cases type)
  case VcselPeriodPreRange
  with assms have "p \<in> {12, 14, 16, 18}"
    using setVcselPulsePeriod_apply_None [of b enables timeouts type p] by auto
  from setVcselPulsePeriod_apply_pre_range [OF this, of b enables timeouts] assms
  show ?thesis unfolding VcselPeriodPreRange by (elim exE) (rule exI, auto)
next
  case VcselPeriodFinalRange
  with assms show ?thesis
    unfolding setVcselPulsePeriod_apply_def Let_def
    by (auto simp add: writeReg_def writeReg16Bit_def split: if_splits intro!: exI)
next
  case VcselPeriodOther
  with assms show ?thesis by (simp add: setVcselPulsePeriod_apply_def)
qed

lemma register_file_calibration_ready:
  fixes dev :: VL53L0X and b :: bus and type :: vcselPeriodType and period_pclks :: u8
  defines "e \<equiv> getSequenceStepEnables b"
  defines "t \<equiv> getSequenceStepTimeouts (snd e) (fst e)"
  defines "applied \<equiv> setVcselPulsePeriod_apply (snd t) (fst e) (fst t) type period_pclks"
  defines "reapplication \<equiv>
             setMeasurementTimingBudget dev (the applied) (measurement_timing_budget_us dev)"
  defines "polled \<equiv>
             writeReg (writeReg (snd (readReg (snd (snd reapplication)) SYSTEM_SEQUENCE_CONFIG))
                         SYSTEM_SEQUENCE_CONFIG 0x02) SYSRANGE_START 0x01"
  assumes allowed: "period_pclks \<in> spec_allowed_periods type"
    and sensor: "device b = register_file init"
    and unwritten: "\<forall>bytes. WriteBytes RESULT_INTERRUPT_STATUS bytes \<notin> set (traffic b)"
  shows "device polled (traffic polled @ replicate n (ReadBytes RESULT_INTERRUPT_STATUS 1))
           RESULT_INTERRUPT_STATUS 0 = init RESULT_INTERRUPT_STATUS 0"
proof -
  from allowed obtain b3 where a: "applied = Some b3"
    unfolding applied_def
    using setVcselPulsePeriod_apply_None [of "snd t" "fst e" "fst t" type period_pclks] by auto
  from traffic_setVcselPulsePeriod_apply [OF a [unfolded applied_def]] obtain sent1 where
    b3: "b3 = (snd t)\<lparr>traffic := traffic (snd t) @ sent1\<rparr>"
    and n1: "\<forall>bytes. WriteBytes RESULT_INTERRUPT_STATUS bytes \<notin> set sent1" by blast
  from traffic_setMeasurementTimingBudget [of dev b3 "measurement_timing_budget_us dev"]
  obtain sent2 where
    b4: "snd (snd reapplication) = b3\<lparr>traffic := traffic b3 @ sent2\<rparr>"
    and n2: "\<forall>bytes. WriteBytes RESULT_INTERRUPT_STATUS bytes \<notin> set sent2"
    unfolding reapplication_def a by fastforce
  have te: "snd e = b\<lparr>traffic := traffic b @ [ReadBytes SYSTEM_SEQUENCE_CONFIG 1]\<rparr>"
    unfolding e_def by (rule traffic_getSequenceStepEnables)
  have tt: "snd t = (snd e)\<lparr>traffic := traffic (snd e) @
              [ReadBytes PRE_RANGE_CONFIG_VCSEL_PERIOD 1,
               ReadBytes MSRC_CONFIG_TIMEOUT_MACROP 1,
               ReadBytes PRE_RANGE_CONFIG_TIMEOUT_MACROP_HI 2,
               ReadBytes FINAL_RANGE_CONFIG_VCSEL_PERIOD 1,
               ReadBytes FINAL_RANGE_CONFIG_TIMEOUT_MACROP_HI 2]\<rparr>"
    unfolding t_def by (rule traffic_getSequenceStepTimeouts)
  have d: "device polled = register_file init"
    unfolding polled_def b4 b3 tt te using sensor by (simp add: readReg_def writeReg_def)
  have "\<forall>bytes. WriteBytes RESULT_INTERRUPT_STATUS bytes
           \<notin> set (traffic polled @ replicate n (ReadBytes RESULT_INTERRUPT_STATUS 1))"
    unfolding polled_def b4 b3 tt te using unwritten n1 n2
    by (simp add: readReg_def writeReg_def)
  from register_file_unwritten [OF this] show ?thesis unfolding d .
qed

text \<open>
  Claim C3. The claim reads: if the reapplication of the cached budget inside
  \<open>VL53L0X_setVcselPulsePeriod\<close> fails, the function returns failure. The call's result
  is discarded (as it is at the other call, in \<open>VL53L0X_init\<close>) and the function ends
  in \<open>return true\<close>. With a cached budget of 0 the reapplication fails, at the bus
  state where the function performs it, and the function returns true.
\<close>

theorem setVcselPulsePeriod_succeeds_though_reapplication_fails:
  "(case getSequenceStepEnables \<lparr>device = constant_sensor 0x01, traffic = []\<rparr> of
      (enables, b1) \<Rightarrow>
    case getSequenceStepTimeouts b1 enables of
      (timeouts, b2) \<Rightarrow>
    case setVcselPulsePeriod_apply b2 enables timeouts VcselPeriodPreRange 12 of
      None \<Rightarrow> False
    | Some b3 \<Rightarrow>
        fst (setMeasurementTimingBudget fresh_handle b3
               (measurement_timing_budget_us fresh_handle)) = False) \<and>
   map_option fst (setVcselPulsePeriod fresh_handle
                     \<lparr>device = constant_sensor 0x01, traffic = []\<rparr> VcselPeriodPreRange 12)
     = Some True"
  by (simp add: setVcselPulsePeriod_def setVcselPulsePeriod_apply_def bus_ops
      setMeasurementTimingBudget_def MinTimingBudget_def fresh_handle_def constant_sensor_def
      performSingleRefCalibration_def startTimeout_def calibration_wait.simps)

text \<open>
  Claim C3, as amended: for every handle, every bus state and every period the step
  allows, whenever the phase calibration that the call performs is reported ready
  (a poll of \<open>RESULT_INTERRUPT_STATUS\<close> in the call's wait, the one after \<open>n\<close> earlier
  polls, reads a value whose low three bits are not all zero),
  \<open>VL53L0X_setVcselPulsePeriod\<close> returns success, with the handle as the
  reapplication left it, whether the reapplication of the cached budget succeeded or
  failed: a failure of the reapplication is not passed on to the caller. The wait
  polls at the bus state the call has reached after its six reads, the writes of the
  step, the reapplication and the three transfers that start the calibration.
\<close>

theorem setVcselPulsePeriod_success:
  fixes dev :: VL53L0X and b :: bus and type :: vcselPeriodType and period_pclks :: u8 and n :: nat
  defines "e \<equiv> getSequenceStepEnables b"
  defines "t \<equiv> getSequenceStepTimeouts (snd e) (fst e)"
  defines "applied \<equiv> setVcselPulsePeriod_apply (snd t) (fst e) (fst t) type period_pclks"
  defines "reapplication \<equiv>
             setMeasurementTimingBudget dev (the applied) (measurement_timing_budget_us dev)"
  defines "polled \<equiv>
             writeReg (writeReg (snd (readReg (snd (snd reapplication)) SYSTEM_SEQUENCE_CONFIG))
                         SYSTEM_SEQUENCE_CONFIG 0x02) SYSRANGE_START 0x01"
  assumes "period_pclks \<in> spec_allowed_periods type"
    and "device polled (traffic polled @ replicate n (ReadBytes RESULT_INTERRUPT_STATUS 1))
           RESULT_INTERRUPT_STATUS 0 AND 0x07 \<noteq> 0"
  shows "\<exists>b'. setVcselPulsePeriod dev b type period_pclks
                 = Some (True, fst (snd reapplication), b')"
proof -
  from setVcselPulsePeriod_trace [of period_pclks type dev b n] assms(6,7)
  obtain k where
    "setVcselPulsePeriod dev b type period_pclks =
       Some (True, fst (snd reapplication),
             polled\<lparr>traffic := traffic polled @
               replicate (Suc k) (ReadBytes RESULT_INTERRUPT_STATUS 1) @
               [WriteBytes SYSTEM_INTERRUPT_CLEAR [0x01], WriteBytes SYSRANGE_START [0x00],
                WriteBytes SYSTEM_SEQUENCE_CONFIG
                  [fst (readReg (snd (snd reapplication)) SYSTEM_SEQUENCE_CONFIG)]]\<rparr>)"
    unfolding polled_def reapplication_def applied_def t_def e_def by blast
  then show ?thesis by blast
qed

theorem setVcselPulsePeriod_success_witness:
  "(let dev = fresh_handle;
        b = \<lparr>device = register_file (regs_ready 0x06 0x26), traffic = []\<rparr>;
        e = getSequenceStepEnables b;
        t = getSequenceStepTimeouts (snd e) (fst e);
        applied = setVcselPulsePeriod_apply (snd t) (fst e) (fst t) VcselPeriodPreRange 12;
        reapplication = setMeasurementTimingBudget dev (the applied)
                          (measurement_timing_budget_us dev);
        polled = writeReg (writeReg (snd (readReg (snd (snd reapplication)) SYSTEM_SEQUENCE_CONFIG))
                             SYSTEM_SEQUENCE_CONFIG 0x02) SYSRANGE_START 0x01
    in (12 :: u8) \<in> spec_allowed_periods VcselPeriodPreRange \<and>
       device polled (traffic polled @ replicate 0 (ReadBytes RESULT_INTERRUPT_STATUS 1))
         RESULT_INTERRUPT_STATUS 0 AND 0x07 \<noteq> 0 \<and>
       fst reapplication = False \<and>
       map_option (\<lambda>r. (fst r, fst (snd r)))
         (setVcselPulsePeriod dev b VcselPeriodPreRange 12) = Some (True, dev)) \<and>
   (let dev = fresh_handle\<lparr>measurement_timing_budget_us := 33000\<rparr>;
        b = \<lparr>device = constant_sensor 0x01, traffic = []\<rparr>;
        e = getSequenceStepEnables b;
        t = getSequenceStepTimeouts (snd e) (fst e);
        applied = setVcselPulsePeriod_apply (snd t) (fst e) (fst t) VcselPeriodFinalRange 8;
        reapplication = setMeasurementTimingBudget dev (the applied)
                          (measurement_timing_budget_us dev);
        polled = writeReg (writeReg (snd (readReg (snd (snd reapplication)) SYSTEM_SEQUENCE_CONFIG))
                             SYSTEM_SEQUENCE_CONFIG 0x02) SYSRANGE_START 0x01
    in (8 :: u8) \<in> spec_allowed_periods VcselPeriodFinalRange \<and>
       device polled (traffic polled @ replicate 0 (ReadBytes RESULT_INTERRUPT_STATUS 1))
         RESULT_INTERRUPT_STATUS 0 AND 0x07 \<noteq> 0 \<and>
       fst reapplication = True \<and>
       map_option (\<lambda>r. (fst r, fst (snd r)))
         (setVcselPulsePeriod dev b VcselPeriodFinalRange 8) = Some (True, dev))"
proof (intro conjI)
  let ?b = "\<lparr>device = register_file (regs_ready 0x06 0x26), traffic = []\<rparr>"
  let ?e = "getSequenceStepEnables ?b"
  let ?t = "getSequenceStepTimeouts (snd ?e) (fst ?e)"
  let ?applied = "setVcselPulsePeriod_apply (snd ?t) (fst ?e) (fst ?t) VcselPeriodPreRange 12"
  let ?reapplication = "setMeasurementTimingBudget fresh_handle (the ?applied)
                          (measurement_timing_budget_us fresh_handle)"
  let ?polled = "writeReg (writeReg (snd (readReg (snd (snd ?reapplication)) SYSTEM_SEQUENCE_CONFIG))
                             SYSTEM_SEQUENCE_CONFIG 0x02) SYSRANGE_START 0x01"
  have h1: "(12 :: u8) \<in> spec_allowed_periods VcselPeriodPreRange" by simp
  have failed: "setMeasurementTimingBudget fresh_handle b3 (measurement_timing_budget_us fresh_handle)
                  = (False, fresh_handle, b3)" for b3
    by (simp add: setMeasurementTimingBudget_def fresh_handle_def MinTimingBudget_def)
  have ready: "regs_ready 0x06 0x26 RESULT_INTERRUPT_STATUS 0 AND 0x07 \<noteq> 0"
    by (simp add: regs_ready_def)
  have "device ?polled (traffic ?polled @ replicate 0 (ReadBytes RESULT_INTERRUPT_STATUS 1))
          RESULT_INTERRUPT_STATUS 0 = regs_ready 0x06 0x26 RESULT_INTERRUPT_STATUS 0"
    by (rule register_file_calibration_ready [OF h1]) simp_all
  then have h2: "device ?polled (traffic ?polled @ replicate 0 (ReadBytes RESULT_INTERRUPT_STATUS 1))
          RESULT_INTERRUPT_STATUS 0 AND 0x07 \<noteq> 0"
    by (simp only: ready not_False_eq_True)
  from setVcselPulsePeriod_success [where dev = fresh_handle and b = ?b
      and type = VcselPeriodPreRange and period_pclks = 12 and n = 0, OF h1 h2]
  have run: "map_option (\<lambda>r. (fst r, fst (snd r)))
         (setVcselPulsePeriod fresh_handle ?b VcselPeriodPreRange 12) = Some (True, fresh_handle)"
    unfolding failed by auto
  show "let dev = fresh_handle;
        b = \<lparr>device = register_file (regs_ready 0x06 0x26), traffic = []\<rparr>;
        e = getSequenceStepEnables b;
        t = getSequenceStepTimeouts (snd e) (fst e);
        applied = setVcselPulsePeriod_apply (snd t) (fst e) (fst t) VcselPeriodPreRange 12;
        reapplication = setMeasurementTimingBudget dev (the applied)
                          (measurement_timing_budget_us dev);
        polled = writeReg (writeReg (snd (readReg (snd (snd reapplication)) SYSTEM_SEQUENCE_CONFIG))
                             SYSTEM_SEQUENCE_CONFIG 0x02) SYSRANGE_START 0x01
    in (12 :: u8) \<in> spec_allowed_periods VcselPeriodPreRange \<and>
       device polled (traffic polled @ replicate 0 (ReadBytes RESULT_INTERRUPT_STATUS 1))
         RESULT_INTERRUPT_STATUS 0 AND 0x07 \<noteq> 0 \<and>
       fst reapplication = False \<and>
       map_option (\<lambda>r. (fst r, fst (snd r)))
         (setVcselPulsePeriod dev b VcselPeriodPreRange 12) = Some (True, dev)"
    unfolding Let_def by (intro conjI h1 h2 run) (simp only: failed fst_conv)
next
  let ?dev = "fresh_handle\<lparr>measurement_timing_budget_us := 33000\<rparr>"
  let ?b = "\<lparr>device = constant_sensor 0x01, traffic = []\<rparr>"
  let ?e = "getSequenceStepEnables ?b"
  let ?t = "getSequenceStepTimeouts (snd ?e) (fst ?e)"
  let ?applied = "setVcselPulsePeriod_apply (snd ?t) (fst ?e) (fst ?t) VcselPeriodFinalRange 8"
  let ?reapplication = "setMeasurementTimingBudget ?dev (the ?applied)
                          (measurement_timing_budget_us ?dev)"
  let ?polled = "writeReg (writeReg (snd (readReg (snd (snd ?reapplication)) SYSTEM_SEQUENCE_CONFIG))
                             SYSTEM_SEQUENCE_CONFIG 0x02) SYSRANGE_START 0x01"
  have h1: "(8 :: u8) \<in> spec_allowed_periods VcselPeriodFinalRange" by simp
  from h1 obtain b3 where a: "?applied = Some b3"
    using setVcselPulsePeriod_apply_None [of "snd ?t" "fst ?e" "fst ?t" VcselPeriodFinalRange 8]
    by auto
  have d3: "device b3 = constant_sensor 0x01"
    using setVcselPulsePeriod_apply_device [OF a] by simp
  have h2: "device ?polled (traffic ?polled @ replicate 0 (ReadBytes RESULT_INTERRUPT_STATUS 1))
          RESULT_INTERRUPT_STATUS 0 AND 0x07 \<noteq> 0"
  proof -
    have "device ?polled = constant_sensor 0x01" unfolding a using d3 by simp
    then show ?thesis by (simp add: constant_sensor_def)
  qed
  have succeeded: "fst ?reapplication = True \<and> fst (snd ?reapplication) = ?dev"
    unfolding a using d3
    by (simp add: setMeasurementTimingBudget_def getSequenceStepEnables_def readReg_def
        fresh_handle_def MinTimingBudget_def constant_sensor_def Let_def split_beta)
  from setVcselPulsePeriod_success [where dev = ?dev and b = ?b
      and type = VcselPeriodFinalRange and period_pclks = 8 and n = 0, OF h1 h2]
  have run: "map_option (\<lambda>r. (fst r, fst (snd r)))
         (setVcselPulsePeriod ?dev ?b VcselPeriodFinalRange 8) = Some (True, ?dev)"
    using succeeded by auto
  show "let dev = fresh_handle\<lparr>measurement_timing_budget_us := 33000\<rparr>;
        b = \<lparr>device = constant_sensor 0x01, traffic = []\<rparr>;
        e = getSequenceStepEnables b;
        t = getSequenceStepTimeouts (snd e) (fst e);
        applied = setVcselPulsePeriod_apply (snd t) (fst e) (fst t) VcselPeriodFinalRange 8;
        reapplication = setMeasurementTimingBudget dev (the applied)
                          (measurement_timing_budget_us dev);
        polled = writeReg (writeReg (snd (readReg (snd (snd reapplication)) SYSTEM_SEQUENCE_CONFIG))
                             SYSTEM_SEQUENCE_CONFIG 0x02) SYSRANGE_START 0x01
    in (8 :: u8) \<in> spec_allowed_periods VcselPeriodFinalRange \<and>
       device polled (traffic polled @ replicate 0 (ReadBytes RESULT_INTERRUPT_STATUS 1))
         RESULT_INTERRUPT_STATUS 0 AND 0x07 \<noteq> 0 \<and>
       fst reapplication = True \<and>
       map_option (\<lambda>r. (fst r, fst (snd r)))
         (setVcselPulsePeriod dev b VcselPeriodFinalRange 8) = Some (True, dev)"
    unfolding Let_def using succeeded by (intro conjI h1 h2 run) simp
qed

text \<open>
  Claim C9. The claim reads: \<open>VL53L0X_setVcselPulsePeriod\<close> fails for every period
  outside the step's allowed set, 13 on the pre-range step among them, with zero
  register writes, rejecting before touching the device. It rejects in the
  \<open>switch\<close>, after \<open>VL53L0X_getSequenceStepEnables\<close> and
  \<open>VL53L0X_getSequenceStepTimeouts\<close> have read six registers: for period 13 on the
  pre-range step the bus has carried these six reads when the function returns.
\<close>

theorem setVcselPulsePeriod_reads_before_rejecting:
  "map_option (\<lambda>r. traffic (snd (snd r)))
     (setVcselPulsePeriod fresh_handle \<lparr>device = constant_sensor 0x01, traffic = []\<rparr>
        VcselPeriodPreRange 13)
   = Some [ReadBytes SYSTEM_SEQUENCE_CONFIG 1,
           ReadBytes PRE_RANGE_CONFIG_VCSEL_PERIOD 1,
           ReadBytes MSRC_CONFIG_TIMEOUT_MACROP 1,
           ReadBytes PRE_RANGE_CONFIG_TIMEOUT_MACROP_HI 2,
           ReadBytes FINAL_RANGE_CONFIG_VCSEL_PERIOD 1,
           ReadBytes FINAL_RANGE_CONFIG_TIMEOUT_MACROP_HI 2]"
  by (simp add: setVcselPulsePeriod_def setVcselPulsePeriod_apply_def bus_ops)

text \<open>
  Claim C9, as amended: for every handle and bus state, \<open>VL53L0X_setVcselPulsePeriod\<close>
  fails for every period outside the step's allowed set (pre-range 12, 14, 16, 18;
  final range 8, 10, 12, 14), 13 on the pre-range step among them; on such a failure
  it returns, leaves the handle as it was and performs zero register writes: all it
  has sent to the sensor is the six register reads of the sequence configuration,
  the two periods and the three timeouts.
\<close>

theorem setVcselPulsePeriod_invalid_period:
  assumes "period_pclks \<notin> spec_allowed_periods type"
  shows "setVcselPulsePeriod dev b type period_pclks =
           Some (False, dev,
                 b\<lparr>traffic := traffic b @
                      [ReadBytes SYSTEM_SEQUENCE_CONFIG 1,
                       ReadBytes PRE_RANGE_CONFIG_VCSEL_PERIOD 1,
                       ReadBytes MSRC_CONFIG_TIMEOUT_MACROP 1,
                       ReadBytes PRE_RANGE_CONFIG_TIMEOUT_MACROP_HI 2,
                       ReadBytes FINAL_RANGE_CONFIG_VCSEL_PERIOD 1,
                       ReadBytes FINAL_RANGE_CONFIG_TIMEOUT_MACROP_HI 2]\<rparr>)"
proof -
  obtain enables b1 where e: "getSequenceStepEnables b = (enables, b1)"
    by (cases "getSequenceStepEnables b")
  obtain timeouts b2 where t: "getSequenceStepTimeouts b1 enables = (timeouts, b2)"
    by (cases "getSequenceStepTimeouts b1 enables")
  have b1: "b1 = b\<lparr>traffic := traffic b @ [ReadBytes SYSTEM_SEQUENCE_CONFIG 1]\<rparr>"
    using e by (auto simp add: getSequenceStepEnables_def readReg_def)
  have b2: "b2 = b1\<lparr>traffic := traffic b1 @
                      [ReadBytes PRE_RANGE_CONFIG_VCSEL_PERIOD 1,
                       ReadBytes MSRC_CONFIG_TIMEOUT_MACROP 1,
                       ReadBytes PRE_RANGE_CONFIG_TIMEOUT_MACROP_HI 2,
                       ReadBytes FINAL_RANGE_CONFIG_VCSEL_PERIOD 1,
                       ReadBytes FINAL_RANGE_CONFIG_TIMEOUT_MACROP_HI 2]\<rparr>"
    using t by (auto simp add: getSequenceStepTimeouts_def getVcselPulsePeriod_def readReg_def
        readReg16Bit_def Let_def)
  from assms have "setVcselPulsePeriod_apply b2 enables timeouts type period_pclks = None"
    by (simp add: setVcselPulsePeriod_apply_None)
  then show ?thesis
    unfolding setVcselPulsePeriod_def by (simp add: e t) (simp add: b1 b2)
qed

theorem setVcselPulsePeriod_invalid_period_witness:
  "(13 :: u8) \<notin> spec_allowed_periods VcselPeriodPreRange \<and>
   setVcselPulsePeriod fresh_handle \<lparr>device = constant_sensor 0x01, traffic = []\<rparr>
       VcselPeriodPreRange 13 =
     Some (False, fresh_handle,
           \<lparr>device = constant_sensor 0x01,
            traffic = [ReadBytes SYSTEM_SEQUENCE_CONFIG 1,
                       ReadBytes PRE_RANGE_CONFIG_VCSEL_PERIOD 1,
                       ReadBytes MSRC_CONFIG_TIMEOUT_MACROP 1,
                       ReadBytes PRE_RANGE_CONFIG_TIMEOUT_MACROP_HI 2,
                       ReadBytes FINAL_RANGE_CONFIG_VCSEL_PERIOD 1,
                       ReadBytes FINAL_RANGE_CONFIG_TIMEOUT_MACROP_HI 2]\<rparr>)"
  using setVcselPulsePeriod_invalid_period [of 13 VcselPeriodPreRange fresh_handle
      "\<lparr>device = constant_sensor 0x01, traffic = []\<rparr>"]
  by simp

text \<open>
  Claim C10. When \<open>VL53L0X_setVcselPulsePeriod\<close> changes the pre-range period (a
  period the pre-range step allows, from any handle and bus state, the calibration
  the call ends with being reported ready), it returns success and has sent to the
  sensor its six register reads, then five register writes of which the fifth is one
  byte to \<open>MSRC_CONFIG_TIMEOUT_MACROP\<close>, then transfers none of which writes that
  register. The byte is computed from the MSRC timeout the call has read itself: 255
  when the recomputed MSRC timeout, as the \<open>uint16_t\<close> the driver stores it in,
  exceeds 256 MCLKs, that timeout minus 1 otherwise, and 255 again when it is 0,
  where the subtraction wraps.
\<close>

theorem msrc_timeout_saturates:
  fixes dev :: VL53L0X and b :: bus and period_pclks :: u8 and n :: nat
  defines "e \<equiv> getSequenceStepEnables b"
  defines "t \<equiv> getSequenceStepTimeouts (snd e) (fst e)"
  defines "new_msrc_timeout_mclks \<equiv>
             unat (ucast (timeoutMicrosecondsToMclks (msrc_dss_tcc_us (fst t)) period_pclks) :: u16)"
  defines "applied \<equiv>
             setVcselPulsePeriod_apply (snd t) (fst e) (fst t) VcselPeriodPreRange period_pclks"
  defines "reapplication \<equiv>
             setMeasurementTimingBudget dev (the applied) (measurement_timing_budget_us dev)"
  defines "polled \<equiv>
             writeReg (writeReg (snd (readReg (snd (snd reapplication)) SYSTEM_SEQUENCE_CONFIG))
                         SYSTEM_SEQUENCE_CONFIG 0x02) SYSRANGE_START 0x01"
  assumes "period_pclks \<in> {12, 14, 16, 18}"
    and "device polled (traffic polled @ replicate n (ReadBytes RESULT_INTERRUPT_STATUS 1))
           RESULT_INTERRUPT_STATUS 0 AND 0x07 \<noteq> 0"
  shows "\<exists>dev' b' phase_high period_reg hi lo val rest.
           setVcselPulsePeriod dev b VcselPeriodPreRange period_pclks = Some (True, dev', b') \<and>
           traffic b' = traffic b @
             [ReadBytes SYSTEM_SEQUENCE_CONFIG 1,
              ReadBytes PRE_RANGE_CONFIG_VCSEL_PERIOD 1,
              ReadBytes MSRC_CONFIG_TIMEOUT_MACROP 1,
              ReadBytes PRE_RANGE_CONFIG_TIMEOUT_MACROP_HI 2,
              ReadBytes FINAL_RANGE_CONFIG_VCSEL_PERIOD 1,
              ReadBytes FINAL_RANGE_CONFIG_TIMEOUT_MACROP_HI 2,
              WriteBytes PRE_RANGE_CONFIG_VALID_PHASE_HIGH [phase_high],
              WriteBytes PRE_RANGE_CONFIG_VALID_PHASE_LOW [0x08],
              WriteBytes PRE_RANGE_CONFIG_VCSEL_PERIOD [period_reg],
              WriteBytes PRE_RANGE_CONFIG_TIMEOUT_MACROP_HI [hi, lo],
              WriteBytes MSRC_CONFIG_TIMEOUT_MACROP [val]] @ rest \<and>
           (\<forall>bytes. WriteBytes MSRC_CONFIG_TIMEOUT_MACROP bytes \<notin> set rest) \<and>
           unat val = (if 256 < new_msrc_timeout_mclks then 255
                       else if new_msrc_timeout_mclks = 0 then 255
                       else new_msrc_timeout_mclks - 1)"
proof -
  have allowed: "period_pclks \<in> spec_allowed_periods VcselPeriodPreRange"
    using assms(7) by simp
  from setVcselPulsePeriod_trace [of period_pclks VcselPeriodPreRange dev b n] allowed assms(8)
  obtain k where run:
    "setVcselPulsePeriod dev b VcselPeriodPreRange period_pclks =
       Some (True, fst (snd reapplication),
             polled\<lparr>traffic := traffic polled @
               replicate (Suc k) (ReadBytes RESULT_INTERRUPT_STATUS 1) @
               [WriteBytes SYSTEM_INTERRUPT_CLEAR [0x01], WriteBytes SYSRANGE_START [0x00],
                WriteBytes SYSTEM_SEQUENCE_CONFIG
                  [fst (readReg (snd (snd reapplication)) SYSTEM_SEQUENCE_CONFIG)]]\<rparr>)"
    unfolding polled_def reapplication_def applied_def t_def e_def by blast
  define m :: u16 where
    "m = ucast (timeoutMicrosecondsToMclks (msrc_dss_tcc_us (fst t)) period_pclks)"
  define val :: u8 where "val = (if m > 256 then 255 else ucast ((ucast m :: u32) - 1))"
  have v: "unat val = (if 256 < new_msrc_timeout_mclks then 255
                       else if new_msrc_timeout_mclks = 0 then 255
                       else new_msrc_timeout_mclks - 1)"
    unfolding val_def new_msrc_timeout_mclks_def m_def [symmetric] by (rule msrc_byte)
  have te: "traffic (snd e) = traffic b @ [ReadBytes SYSTEM_SEQUENCE_CONFIG 1]"
    unfolding e_def by (simp add: traffic_getSequenceStepEnables)
  have tt: "traffic (snd t) = traffic (snd e) @
              [ReadBytes PRE_RANGE_CONFIG_VCSEL_PERIOD 1,
               ReadBytes MSRC_CONFIG_TIMEOUT_MACROP 1,
               ReadBytes PRE_RANGE_CONFIG_TIMEOUT_MACROP_HI 2,
               ReadBytes FINAL_RANGE_CONFIG_VCSEL_PERIOD 1,
               ReadBytes FINAL_RANGE_CONFIG_TIMEOUT_MACROP_HI 2]"
    unfolding t_def by (simp add: traffic_getSequenceStepTimeouts)
  from setVcselPulsePeriod_apply_pre_range [OF assms(7), of "snd t" "fst e" "fst t"]
  obtain phase_high period_reg hi lo where
    ta: "traffic (the applied) = traffic (snd t) @
           [WriteBytes PRE_RANGE_CONFIG_VALID_PHASE_HIGH [phase_high],
            WriteBytes PRE_RANGE_CONFIG_VALID_PHASE_LOW [0x08],
            WriteBytes PRE_RANGE_CONFIG_VCSEL_PERIOD [period_reg],
            WriteBytes PRE_RANGE_CONFIG_TIMEOUT_MACROP_HI [hi, lo],
            WriteBytes MSRC_CONFIG_TIMEOUT_MACROP [val]]"
    unfolding applied_def val_def m_def by auto
  from traffic_setMeasurementTimingBudget [of dev "the applied" "measurement_timing_budget_us dev"]
  obtain sent where
    ts: "traffic (snd (snd reapplication)) = traffic (the applied) @ sent"
    and ns: "\<forall>bytes. WriteBytes MSRC_CONFIG_TIMEOUT_MACROP bytes \<notin> set sent"
    unfolding reapplication_def by fastforce
  have tp: "traffic polled = traffic (snd (snd reapplication)) @
              [ReadBytes SYSTEM_SEQUENCE_CONFIG 1, WriteBytes SYSTEM_SEQUENCE_CONFIG [0x02],
               WriteBytes SYSRANGE_START [0x01]]"
    unfolding polled_def by (simp add: readReg_def writeReg_def)
  define rest where
    "rest = sent @
       [ReadBytes SYSTEM_SEQUENCE_CONFIG 1, WriteBytes SYSTEM_SEQUENCE_CONFIG [0x02],
        WriteBytes SYSRANGE_START [0x01]] @
       replicate (Suc k) (ReadBytes RESULT_INTERRUPT_STATUS 1) @
       [WriteBytes SYSTEM_INTERRUPT_CLEAR [0x01], WriteBytes SYSRANGE_START [0x00],
        WriteBytes SYSTEM_SEQUENCE_CONFIG
          [fst (readReg (snd (snd reapplication)) SYSTEM_SEQUENCE_CONFIG)]]"
  have nr: "\<forall>bytes. WriteBytes MSRC_CONFIG_TIMEOUT_MACROP bytes \<notin> set rest"
    using ns unfolding rest_def by auto
  let ?b' = "polled\<lparr>traffic := traffic polled @
               replicate (Suc k) (ReadBytes RESULT_INTERRUPT_STATUS 1) @
               [WriteBytes SYSTEM_INTERRUPT_CLEAR [0x01], WriteBytes SYSRANGE_START [0x00],
                WriteBytes SYSTEM_SEQUENCE_CONFIG
                  [fst (readReg (snd (snd reapplication)) SYSTEM_SEQUENCE_CONFIG)]]\<rparr>"
  have tr: "traffic ?b' = traffic b @
             [ReadBytes SYSTEM_SEQUENCE_CONFIG 1,
              ReadBytes PRE_RANGE_CONFIG_VCSEL_PERIOD 1,
              ReadBytes MSRC_CONFIG_TIMEOUT_MACROP 1,
              ReadBytes PRE_RANGE_CONFIG_TIMEOUT_MACROP_HI 2,
              ReadBytes FINAL_RANGE_CONFIG_VCSEL_PERIOD 1,
              ReadBytes FINAL_RANGE_CONFIG_TIMEOUT_MACROP_HI 2,
              WriteBytes PRE_RANGE_CONFIG_VALID_PHASE_HIGH [phase_high],
              WriteBytes PRE_RANGE_CONFIG_VALID_PHASE_LOW [0x08],
              WriteBytes PRE_RANGE_CONFIG_VCSEL_PERIOD [period_reg],
              WriteBytes PRE_RANGE_CONFIG_TIMEOUT_MACROP_HI [hi, lo],
              WriteBytes MSRC_CONFIG_TIMEOUT_MACROP [val]] @ rest"
    unfolding rest_def by (simp add: tp ts ta tt te)
  from run tr nr v show ?thesis by blast
qed

theorem msrc_timeout_saturates_witness:
  "(let run = (\<lambda>period_reg msrc_reg period_pclks.
          let b = \<lparr>device = register_file (regs_ready period_reg msrc_reg), traffic = []\<rparr>;
              e = getSequenceStepEnables b;
              t = getSequenceStepTimeouts (snd e) (fst e);
              applied = setVcselPulsePeriod_apply (snd t) (fst e) (fst t)
                          VcselPeriodPreRange period_pclks;
              reapplication = setMeasurementTimingBudget fresh_handle (the applied)
                                (measurement_timing_budget_us fresh_handle);
              polled = writeReg (writeReg (snd (readReg (snd (snd reapplication))
                                                  SYSTEM_SEQUENCE_CONFIG))
                                   SYSTEM_SEQUENCE_CONFIG 0x02) SYSRANGE_START 0x01
          in (period_pclks \<in> {12, 14, 16, 18} \<and>
              device polled (traffic polled @ replicate 0 (ReadBytes RESULT_INTERRUPT_STATUS 1))
                RESULT_INTERRUPT_STATUS 0 AND 0x07 \<noteq> 0,
              unat (ucast (timeoutMicrosecondsToMclks (msrc_dss_tcc_us (fst t)) period_pclks)
                      :: u16),
              map_option (\<lambda>r. traffic (snd (snd r)) ! 10)
                (setVcselPulsePeriod fresh_handle b VcselPeriodPreRange period_pclks)))
    in run 0x06 0x26 12 = (True, 46, Some (WriteBytes MSRC_CONFIG_TIMEOUT_MACROP [45])) \<and>
       run 0x08 0xFF 12 = (True, 385, Some (WriteBytes MSRC_CONFIG_TIMEOUT_MACROP [255])) \<and>
       run 0x00 0x00 18 = (True, 0, Some (WriteBytes MSRC_CONFIG_TIMEOUT_MACROP [255])))"
proof -
  have run: "(let b = \<lparr>device = register_file (regs_ready period_reg msrc_reg), traffic = []\<rparr>;
              e = getSequenceStepEnables b;
              t = getSequenceStepTimeouts (snd e) (fst e);
              applied = setVcselPulsePeriod_apply (snd t) (fst e) (fst t)
                          VcselPeriodPreRange period_pclks;
              reapplication = setMeasurementTimingBudget fresh_handle (the applied)
                                (measurement_timing_budget_us fresh_handle);
              polled = writeReg (writeReg (snd (readReg (snd (snd reapplication))
                                                  SYSTEM_SEQUENCE_CONFIG))
                                   SYSTEM_SEQUENCE_CONFIG 0x02) SYSRANGE_START 0x01
          in (period_pclks \<in> {12, 14, 16, 18} \<and>
              device polled (traffic polled @ replicate 0 (ReadBytes RESULT_INTERRUPT_STATUS 1))
                RESULT_INTERRUPT_STATUS 0 AND 0x07 \<noteq> 0,
              unat (ucast (timeoutMicrosecondsToMclks (msrc_dss_tcc_us (fst t)) period_pclks)
                      :: u16),
              map_option (\<lambda>r. traffic (snd (snd r)) ! 10)
                (setVcselPulsePeriod fresh_handle b VcselPeriodPreRange period_pclks)))
          = (True, new, Some (WriteBytes MSRC_CONFIG_TIMEOUT_MACROP [val]))"
    if h1: "period_pclks \<in> {12, 14, 16, 18}"
      and new: "unat (ucast (timeoutMicrosecondsToMclks (msrc_dss_tcc_us (fst
                   (getSequenceStepTimeouts
                      (snd (getSequenceStepEnables
                         \<lparr>device = register_file (regs_ready period_reg msrc_reg), traffic = []\<rparr>))
                      (fst (getSequenceStepEnables
                         \<lparr>device = register_file (regs_ready period_reg msrc_reg), traffic = []\<rparr>)))))
                 period_pclks) :: u16) = new"
      and val: "unat val = (if 256 < new then 255 else if new = 0 then 255 else new - 1)"
    for period_reg msrc_reg period_pclks new and val :: u8
  proof -
    let ?b = "\<lparr>device = register_file (regs_ready period_reg msrc_reg), traffic = []\<rparr>"
    let ?e = "getSequenceStepEnables ?b"
    let ?t = "getSequenceStepTimeouts (snd ?e) (fst ?e)"
    let ?applied = "setVcselPulsePeriod_apply (snd ?t) (fst ?e) (fst ?t)
                      VcselPeriodPreRange period_pclks"
    let ?reapplication = "setMeasurementTimingBudget fresh_handle (the ?applied)
                            (measurement_timing_budget_us fresh_handle)"
    let ?polled = "writeReg (writeReg (snd (readReg (snd (snd ?reapplication))
                                              SYSTEM_SEQUENCE_CONFIG))
                               SYSTEM_SEQUENCE_CONFIG 0x02) SYSRANGE_START 0x01"
    have allowed: "period_pclks \<in> spec_allowed_periods VcselPeriodPreRange" using h1 by simp
    have ready: "regs_ready period_reg msrc_reg RESULT_INTERRUPT_STATUS 0 AND 0x07 \<noteq> 0"
      by (simp add: regs_ready_def)
    have "device ?polled (traffic ?polled @ replicate 0 (ReadBytes RESULT_INTERRUPT_STATUS 1))
            RESULT_INTERRUPT_STATUS 0 = regs_ready period_reg msrc_reg RESULT_INTERRUPT_STATUS 0"
      by (rule register_file_calibration_ready [OF allowed]) simp_all
    then have h2: "device ?polled (traffic ?polled @ replicate 0 (ReadBytes RESULT_INTERRUPT_STATUS 1))
            RESULT_INTERRUPT_STATUS 0 AND 0x07 \<noteq> 0"
      by (simp only: ready not_False_eq_True)
    from msrc_timeout_saturates [where dev = fresh_handle and b = ?b
        and period_pclks = period_pclks and n = 0, OF h1 h2]
    obtain dev' b' phase_high period_reg' hi lo v rest where
      r: "setVcselPulsePeriod fresh_handle ?b VcselPeriodPreRange period_pclks = Some (True, dev', b')"
      and tr: "traffic b' = traffic ?b @
             [ReadBytes SYSTEM_SEQUENCE_CONFIG 1,
              ReadBytes PRE_RANGE_CONFIG_VCSEL_PERIOD 1,
              ReadBytes MSRC_CONFIG_TIMEOUT_MACROP 1,
              ReadBytes PRE_RANGE_CONFIG_TIMEOUT_MACROP_HI 2,
              ReadBytes FINAL_RANGE_CONFIG_VCSEL_PERIOD 1,
              ReadBytes FINAL_RANGE_CONFIG_TIMEOUT_MACROP_HI 2,
              WriteBytes PRE_RANGE_CONFIG_VALID_PHASE_HIGH [phase_high],
              WriteBytes PRE_RANGE_CONFIG_VALID_PHASE_LOW [0x08],
              WriteBytes PRE_RANGE_CONFIG_VCSEL_PERIOD [period_reg'],
              WriteBytes PRE_RANGE_CONFIG_TIMEOUT_MACROP_HI [hi, lo],
              WriteBytes MSRC_CONFIG_TIMEOUT_MACROP [v]] @ rest"
      and v: "unat v = (if 256 < new then 255 else if new = 0 then 255 else new - 1)"
      unfolding new by blast
    from v val have "unat v = unat val" by simp
    then have "v = val" by (simp add: word_eq_iff_unsigned [where ?'a = nat])
    with tr have "traffic b' ! 10 = WriteBytes MSRC_CONFIG_TIMEOUT_MACROP [val]" by simp
    with r have w: "map_option (\<lambda>r. traffic (snd (snd r)) ! 10)
                (setVcselPulsePeriod fresh_handle ?b VcselPeriodPreRange period_pclks)
                 = Some (WriteBytes MSRC_CONFIG_TIMEOUT_MACROP [val])" by simp
    show ?thesis unfolding Let_def
      by (simp only: h1 h2 new w simp_thms)
  qed
  have n1: "unat (ucast (timeoutMicrosecondsToMclks (msrc_dss_tcc_us (fst
                   (getSequenceStepTimeouts
                      (snd (getSequenceStepEnables
                         \<lparr>device = register_file (regs_ready 0x06 0x26), traffic = []\<rparr>))
                      (fst (getSequenceStepEnables
                         \<lparr>device = register_file (regs_ready 0x06 0x26), traffic = []\<rparr>)))))
                 12) :: u16) = 46"
    by (simp add: bus_ops eval_defs regs_ready_def)
  have n2: "unat (ucast (timeoutMicrosecondsToMclks (msrc_dss_tcc_us (fst
                   (getSequenceStepTimeouts
                      (snd (getSequenceStepEnables
                         \<lparr>device = register_file (regs_ready 0x08 0xFF), traffic = []\<rparr>))
                      (fst (getSequenceStepEnables
                         \<lparr>device = register_file (regs_ready 0x08 0xFF), traffic = []\<rparr>)))))
                 12) :: u16) = 385"
    by (simp add: bus_ops eval_defs regs_ready_def)
  have n3: "unat (ucast (timeoutMicrosecondsToMclks (msrc_dss_tcc_us (fst
                   (getSequenceStepTimeouts
                      (snd (getSequenceStepEnables
                         \<lparr>device = register_file (regs_ready 0x00 0x00), traffic = []\<rparr>))
                      (fst (getSequenceStepEnables
                         \<lparr>device = register_file (regs_ready 0x00 0x00), traffic = []\<rparr>)))))
                 18) :: u16) = 0"
    by (simp add: bus_ops eval_defs regs_ready_def)
  have c1: "unat (45 :: u8) = (if 256 < (46 :: nat) then 255 else if (46 :: nat) = 0 then 255 else 46 - 1)"
    by simp
  have c2: "unat (255 :: u8) = (if 256 < (385 :: nat) then 255 else if (385 :: nat) = 0 then 255 else 385 - 1)"
    by simp
  have c3: "unat (255 :: u8) = (if 256 < (0 :: nat) then 255 else if (0 :: nat) = 0 then 255 else 0 - 1)"
    by simp
  note run' = run [unfolded Let_def]
  show ?thesis unfolding Let_def
    by (intro conjI run' [OF _ n1 c1] run' [OF _ n2 c2] run' [OF _ n3 c3]) simp_all
qed

end
